theory Spec2Isabelle
  imports Complex_Main "HOL-Library.Log_Nat"
begin

section \<open>JavaScript numbers and dates\<close>

text \<open>
  The page computes with JavaScript numbers, which are IEEE doubles. The arithmetic of
  the source is kept operator by operator over the real numbers. Where a computed number
  is compared with a threshold, rounding decides the result: the moon age, which selects
  the moon image, is therefore computed with the rounding of doubles, every operation
  rounded to the nearest double (\<open>double\<close> below). The clock and sidereal angles are
  handed to rotations and keep the real arithmetic.

  \<open>x % y\<close> is the truncated remainder: it keeps the sign of the dividend, and on doubles
  its result is exact.
\<close>

definition js_trunc :: "real \<Rightarrow> int" where
  "js_trunc x = (if 0 \<le> x then \<lfloor>x\<rfloor> else \<lceil>x\<rceil>)"

definition js_rem :: "real \<Rightarrow> real \<Rightarrow> real" where
  "js_rem x y = x - y * of_int (js_trunc (x / y))"

text \<open>\<open>Math.round\<close> rounds half up; \<open>Math.floor\<close> is the floor.\<close>

definition Math_round :: "real \<Rightarrow> int" where
  "Math_round x = \<lfloor>x + 1 / 2\<rfloor>"

definition Math_floor :: "real \<Rightarrow> int" where
  "Math_floor x = \<lfloor>x\<rfloor>"

text \<open>
  Rounding to the nearest double, ties to even. A double other than zero is an integer
  of at most 53 bits times a power of two; \<open>binade x\<close> is the exponent \<open>e\<close> with
  \<open>2 ^ e \<le> |x| < 2 ^ (e + 1)\<close>, read off the bit length of the integer part of \<open>|x|\<close>,
  or of \<open>1 / |x|\<close> below 1. Overflow and subnormal numbers do not occur at the
  magnitudes of this page and are not modelled.
\<close>

definition pow2 :: "int \<Rightarrow> real" where
  "pow2 e = (if 0 \<le> e then 2 ^ nat e else 1 / 2 ^ nat (- e))"

definition binade :: "real \<Rightarrow> int" where
  "binade x =
     (if 1 \<le> \<bar>x\<bar> then bitlen \<lfloor>\<bar>x\<bar>\<rfloor> - 1 else - bitlen (\<lceil>1 / \<bar>x\<bar>\<rceil> - 1))"

definition rne :: "real \<Rightarrow> int" where
  "rne x =
     (let f = \<lfloor>x\<rfloor>; d = x - of_int f
      in if d < 1 / 2 then f
         else if 1 / 2 < d then f + 1
         else if even f then f else f + 1)"

definition double :: "real \<Rightarrow> real" where
  "double x =
     (if x = 0 then 0
      else of_int (rne (x / pow2 (binade x - 52))) * pow2 (binade x - 52))"

text \<open>
  A \<open>Date\<close> as the page reads it: the epoch milliseconds and the local-time fields the
  accessors return. The decomposition into local fields is the host's.
\<close>

record jsdate =
  getTime :: int
  getHours :: int
  getMinutes :: int
  getSeconds :: int
  getMilliseconds :: int
  getDate :: int

section \<open>Time and astronomy\<close>

definition LUNAR_CYCLE :: real where
  "LUNAR_CYCLE = double 29.53059"

text \<open>\<open>new Date(Date.UTC(2026, 0, 19, 0, 0)).getTime()\<close>: 20472 days after the epoch.\<close>

definition ref_getTime :: int where
  "ref_getTime = 1768780800000"

text \<open>
  The local \<open>moonAge\<close> of \<open>drawMoon\<close>, in doubles: the difference, the quotient and the
  sum are rounded, the two remainders are exact.
\<close>

definition moonAge :: "jsdate \<Rightarrow> real" where
  "moonAge date =
     (let days = double (double (of_int (getTime date) - of_int ref_getTime)
                           / (1000 * 60 * 60 * 24))
      in js_rem (double (js_rem days LUNAR_CYCLE + LUNAR_CYCLE)) LUNAR_CYCLE)"

text \<open>
  \<open>getMoonPhaseAngle\<close> and \<open>getMoonPhaseIndex\<close> are never called. Both compute the
  same age. The first scales it to an angle; \<open>Math.PI\<close> is the double nearest to \<open>pi\<close>.
  The second divides the cycle evenly, rounding to the nearest of eight. The products by 2
  and by 8 are exact on doubles.
\<close>

definition getMoonPhaseAngle :: "jsdate \<Rightarrow> real" where
  "getMoonPhaseAngle date =
     (let days = double (double (of_int (getTime date) - of_int ref_getTime)
                           / (1000 * 60 * 60 * 24));
          phase = js_rem (double (js_rem days LUNAR_CYCLE + LUNAR_CYCLE)) LUNAR_CYCLE
      in double (double (phase / LUNAR_CYCLE) * double pi) * 2)"

definition getMoonPhaseIndex :: "jsdate \<Rightarrow> real" where
  "getMoonPhaseIndex date =
     (let days = double (double (of_int (getTime date) - of_int ref_getTime)
                           / (1000 * 60 * 60 * 24));
          phase = js_rem (double (js_rem days LUNAR_CYCLE + LUNAR_CYCLE)) LUNAR_CYCLE;
          phaseIndex = js_rem (of_int (Math_round (double (phase / LUNAR_CYCLE) * 8))) 8
      in phaseIndex)"

text \<open>The thresholds are the doubles that the literals of the source denote.\<close>

definition getMoonPhaseImage :: "real \<Rightarrow> nat" where
  "getMoonPhaseImage age =
     (if age < double 1.84 then 0
      else if age < double 7.38 then 1
      else if age < double 9.23 then 2
      else if age < double 14.77 then 3
      else if age < double 16.61 then 4
      else if age < double 22.15 then 5
      else if age < double 23.99 then 6
      else 7)"

definition getSiderealAngle :: "jsdate \<Rightarrow> real" where
  "getSiderealAngle date =
     (let JD = of_int (getTime date) / 86400000 + 2440587.5;
          D = JD - 2451545.0;
          GMST = 280.46061837 + 360.98564736629 * D;
          GMST = js_rem (js_rem GMST 360 + 360) 360;
          longitude = - 0.1278;
          LST = GMST + longitude;
          LST = js_rem (js_rem LST 360 + 360) 360
      in (LST / 360) * pi * 2)"

section \<open>The drawing surface\<close>

text \<open>
  A routine of the renderer is modelled by the list of calls it makes on the 2D context,
  in order. Assigning a context property (\<open>ctx.fillStyle = ...\<close>) is a call too. A gradient
  object is the value built by \<open>createLinearGradient\<close> or \<open>createRadialGradient\<close> and
  its \<open>addColorStop\<close> calls. A colour is a CSS string, or \<open>rgba(r, g, b, a)\<close> with its
  alpha kept as a number.
\<close>

datatype colour = Css string | Rgba nat nat nat real

datatype paint =
    Flat colour
  | LinearGradient real real real real "(real \<times> colour) list"
  | RadialGradient real real real real real real "(real \<times> colour) list"

record image =
  src :: string
  complete :: bool

datatype cmd =
    Save
  | Restore
  | Translate real real
  | Rotate real
  | BeginPath
  | ClosePath
  | MoveTo real real
  | LineTo real real
  | Arc real real real real real
  | Clip
  | Fill
  | Stroke
  | FillRect real real real real
  | ClearRect real real real real
  | FillText string real real
  | DrawImage image real real real real
  | FillStyle paint
  | StrokeStyle paint
  | LineWidth real
  | LineCap string
  | Font string
  | TextAlign string
  | TextBaseline string
  | ConsoleLog real nat

text \<open>
  \<open>ConsoleLog age index\<close> is the debug line of \<open>drawMoon\<close>; the console prints the age
  with two decimals.
\<close>

text \<open>The constants \<open>size\<close>, \<open>c\<close> and \<open>r\<close> of the drawing effect.\<close>

definition canvas_size :: real where
  "canvas_size = 560"

definition canvas_c :: real where
  "canvas_c = canvas_size / 2"

definition canvas_r :: real where
  "canvas_r = canvas_size * 0.42"

text \<open>
  The drawing effect returns before it defines any routine when the canvas or its 2D
  context is missing, so inside the routines \<open>ctx\<close> is present and their own guards
  \<open>if (!ctx) return\<close> never fire. The routines below are those of a present context;
  \<open>animate\<close> at the end of this section keeps the effect's guard.
\<close>

definition drawMinuteTrack :: "cmd list" where
  "drawMinuteTrack =
     concat (map (\<lambda>i::nat.
       let a = (real i * pi) / 30 - pi / 2;
           outer = canvas_r * 0.985;
           inner = canvas_r * (if i mod 5 = 0 then 0.95 else 0.965)
       in [BeginPath,
           MoveTo (canvas_c + cos a * inner) (canvas_c + sin a * inner),
           LineTo (canvas_c + cos a * outer) (canvas_c + sin a * outer),
           StrokeStyle (Flat (Css ''#f5f5f0'')),
           LineWidth (if i mod 5 = 0 then 2 else 1),
           Stroke]) [0..<60])"

text \<open>The sparkle scalar of baton \<open>i\<close> at \<open>time = Date.now() / 1000\<close>.\<close>

definition baton_sparkle :: "real \<Rightarrow> nat \<Rightarrow> real" where
  "baton_sparkle time i = sin (time * 0.25 + real i * 1.3) * 0.5 + 0.5"

definition drawBaton :: "real \<Rightarrow> nat \<Rightarrow> cmd list" where
  "drawBaton time i =
     (let outerRadius = canvas_r * 0.88;
          normalBatonLength = 20;
          shortBatonLength = 12;
          a = (real i * pi) / 6 - pi / 2;
          batonLength = (if i = 3 \<or> i = 6 \<or> i = 9 then shortBatonLength else normalBatonLength);
          outer = outerRadius;
          inner = outer - batonLength;
          perpAngle = a + pi / 2;
          gradOffset = 2.5;
          x1 = canvas_c + cos a * ((inner + outer) / 2) + cos perpAngle * gradOffset;
          y1 = canvas_c + sin a * ((inner + outer) / 2) + sin perpAngle * gradOffset;
          x2 = canvas_c + cos a * ((inner + outer) / 2) - cos perpAngle * gradOffset;
          y2 = canvas_c + sin a * ((inner + outer) / 2) - sin perpAngle * gradOffset;
          batonGradient = LinearGradient x1 y1 x2 y2
            [(0, Css ''#a87d45''), (0.3, Css ''#d4a574''), (0.5, Css ''#f0d4c3''),
             (0.7, Css ''#d4a574''), (1, Css ''#8f6a3a'')];
          sparkle = baton_sparkle time i
      in [BeginPath,
          MoveTo (canvas_c + cos a * inner) (canvas_c + sin a * inner),
          LineTo (canvas_c + cos a * outer) (canvas_c + sin a * outer),
          StrokeStyle batonGradient,
          LineWidth 5,
          LineCap ''square'',
          Stroke] @
         (if sparkle > 0.88 then
            (let sparklePos = (inner + outer) / 2;
                 sx = canvas_c + cos a * sparklePos;
                 sy = canvas_c + sin a * sparklePos;
                 intensity = (sparkle - 0.88) * 8
             in [FillStyle (Flat (Rgba 255 255 255 intensity)),
                 Save,
                 Translate sx sy,
                 Rotate (a + pi / 2),
                 FillRect (- 2) (- 0.5) 4 1,
                 FillRect (- 0.5) (- 2) 1 4,
                 Restore])
          else []))"

text \<open>
  \<open>drawBaton\<close> above is the body of the loop of \<open>drawBatons\<close>, which reads the clock
  once (\<open>now = Date.now()\<close>) before the loop.
\<close>

definition drawBatons :: "int \<Rightarrow> cmd list" where
  "drawBatons now = (let time = of_int now / 1000 in concat (map (drawBaton time) [0..<12]))"

text \<open>The two sparkle scalars of a hand shaft, and the one of the seconds hand.\<close>

definition hand_sparkle1 :: "real \<Rightarrow> real \<Rightarrow> real" where
  "hand_sparkle1 time angle = max 0 (sin (time * 0.4 + angle * 3.7) * 0.5 + 0.5)"

definition hand_sparkle2 :: "real \<Rightarrow> real \<Rightarrow> real" where
  "hand_sparkle2 time angle = max 0 (sin (time * 0.3 + angle * 5.1 + 2.5) * 0.5 + 0.5)"

definition seconds_sparkle :: "real \<Rightarrow> real \<Rightarrow> real" where
  "seconds_sparkle time angle = sin (time * 0.5 + angle * 1.7) * 0.5 + 0.5"

text \<open>The parameter \<open>col\<close> of \<open>drawBreguetHand\<close> is not used by its body.\<close>

definition drawBreguetHand :: "int \<Rightarrow> real \<Rightarrow> real \<Rightarrow> string \<Rightarrow> cmd list" where
  "drawBreguetHand now angle len col =
     (let pommeRadius = 12;
          pommePosition = len * 0.75;
          handGradient = LinearGradient 0 (- 4) 0 4
            [(0, Css ''#c89968''), (0.25, Css ''#F0D4C3''), (0.5, Css ''#fae8d8''),
             (0.75, Css ''#F0D4C3''), (1, Css ''#b88958'')];
          pommeGradient = LinearGradient pommePosition (- pommeRadius) pommePosition pommeRadius
            [(0, Css ''#c89968''), (0.5, Css ''#fae8d8''), (1, Css ''#b88958'')];
          time = of_int now / 1000;
          sparkle1 = hand_sparkle1 time angle;
          sparkle2 = hand_sparkle2 time angle
      in [Save,
          Translate canvas_c canvas_c,
          Rotate (angle - pi / 2),
          BeginPath,
          MoveTo 0 (- 3.5),
          LineTo (pommePosition - pommeRadius) (- 1.8),
          LineTo (pommePosition - pommeRadius) 1.8,
          LineTo 0 3.5,
          ClosePath,
          FillStyle handGradient,
          Fill,
          BeginPath,
          MoveTo (pommePosition + pommeRadius) (- 1.2),
          LineTo len (- 0.4),
          LineTo len 0.4,
          LineTo (pommePosition + pommeRadius) 1.2,
          ClosePath,
          FillStyle handGradient,
          Fill,
          BeginPath,
          Arc pommePosition 0 pommeRadius 0 (pi * 2),
          StrokeStyle pommeGradient,
          LineWidth 2.5,
          Stroke] @
         (if sparkle1 > 0.85 then
            (let sparklePos = pommePosition * 0.4
             in [FillStyle (Flat (Rgba 255 255 255 ((sparkle1 - 0.85) * 6))),
                 FillRect (sparklePos - 1) (- 0.5) 2 1,
                 FillRect (sparklePos - 0.5) (- 1) 1 2])
          else []) @
         (if sparkle2 > 0.85 then
            (let sparklePos = pommePosition + pommeRadius + (len - pommePosition - pommeRadius) * 0.5
             in [FillStyle (Flat (Rgba 255 255 255 ((sparkle2 - 0.85) * 6))),
                 FillRect (sparklePos - 1) (- 0.5) 2 1,
                 FillRect (sparklePos - 0.5) (- 1) 1 2])
          else []) @
         [Restore])"

definition drawSecondsHand :: "int \<Rightarrow> real \<Rightarrow> cmd list" where
  "drawSecondsHand now angle =
     (let len = canvas_r * 0.85;
          counterbalanceRadius = 5;
          secondsGradient = LinearGradient 0 (- 1) 0 1
            [(0, Css ''#c89968''), (0.5, Css ''#fae8d8''), (1, Css ''#b88958'')];
          counterbalanceGrad =
            RadialGradient (- canvas_r * 0.15) 0 0 (- canvas_r * 0.15) 0 counterbalanceRadius
              [(0, Css ''#fae8d8''), (0.6, Css ''#F0D4C3''), (1, Css ''#b88958'')];
          time = of_int now / 1000;
          sparkle = seconds_sparkle time angle
      in [Save,
          Translate canvas_c canvas_c,
          Rotate (angle - pi / 2),
          BeginPath,
          MoveTo (- canvas_r * 0.15) 0,
          LineTo len 0,
          StrokeStyle secondsGradient,
          LineWidth 1.5,
          Stroke,
          BeginPath,
          Arc (- canvas_r * 0.15) 0 counterbalanceRadius 0 (pi * 2),
          FillStyle counterbalanceGrad,
          Fill] @
         (if sparkle > 0.88 then
            (let sparklePos = len * 0.7
             in [FillStyle (Flat (Rgba 255 255 255 ((sparkle - 0.88) * 8))),
                 FillRect (sparklePos - 1) (- 0.5) 2 1,
                 FillRect (sparklePos - 0.5) (- 1) 1 2])
          else []) @
         [Restore])"

definition drawGMTHand :: "real \<Rightarrow> cmd list" where
  "drawGMTHand angle =
     (let len = canvas_r * 0.65;
          arrowSize = 8
      in [Save,
          Translate canvas_c canvas_c,
          Rotate (angle - pi / 2),
          BeginPath,
          MoveTo 0 0,
          LineTo (len - arrowSize) 0,
          StrokeStyle (Flat (Css ''#b00020'')),
          LineWidth 3,
          LineCap ''round'',
          Stroke,
          BeginPath,
          MoveTo (len - arrowSize) (- 5),
          LineTo len 0,
          LineTo (len - arrowSize) 5,
          ClosePath,
          FillStyle (Flat (Css ''#b00020'')),
          Fill,
          Restore])"

subsection \<open>Assets\<close>

text \<open>
  The state the renderer reads from the loader: the flag \<open>moonImagesLoaded\<close>, the array
  \<open>moonPhaseImagesRef.current\<close> (a JavaScript array may have holes: \<open>None\<close>) and the
  case image. Reading an array past its end gives \<open>undefined\<close>, as a hole does.
\<close>

record assets =
  moonImagesLoaded :: bool
  moonPhaseImages :: "image option list"
  caseImage :: image

definition array_get :: "'a option list \<Rightarrow> nat \<Rightarrow> 'a option" where
  "array_get xs i = (if i < length xs then xs ! i else None)"

subsection \<open>Complications\<close>

definition drawMoon :: "assets \<Rightarrow> jsdate \<Rightarrow> cmd list" where
  "drawMoon as date =
     (let rr = canvas_r * 0.18;
          y = canvas_c + canvas_r * 0.56;
          age = moonAge date
      in [Save,
          BeginPath,
          Arc canvas_c y rr 0 (pi * 2),
          Clip] @
         (if moonImagesLoaded as \<and> length (moonPhaseImages as) > 0 then
            (let phaseIndex = getMoonPhaseImage age;
                 moonPhaseImg = array_get (moonPhaseImages as) phaseIndex;
                 moonSize = rr * 2
             in (if js_rem (of_int (Math_floor (of_int (getTime date) / 1000))) 10 = 0
                 then [ConsoleLog age phaseIndex] else []) @
                (case moonPhaseImg of
                   Some img \<Rightarrow>
                     if complete img
                     then [DrawImage img (canvas_c - rr) (y - rr) moonSize moonSize]
                     else []
                 | None \<Rightarrow> []))
          else [FillStyle (Flat (Css ''#1e3a8a'')), Fill]) @
         [Restore,
          BeginPath,
          Arc canvas_c y rr 0 (pi * 2),
          StrokeStyle (Flat (Css ''#c0c0c0'')),
          LineWidth 2.5,
          Stroke,
          BeginPath,
          Arc canvas_c y (rr - 1.5) 0 (pi * 2),
          StrokeStyle (Flat (Css ''#0b1d3a'')),
          LineWidth 1,
          Stroke])"

text \<open>The parameter \<open>breathe\<close> of \<open>drawSidereal\<close> is not used by its body.\<close>

definition drawSidereal :: "jsdate \<Rightarrow> real \<Rightarrow> cmd list" where
  "drawSidereal date breathe =
     (let rr = canvas_r * 0.23;
          x = canvas_c - canvas_r * 0.55;
          siderealGradient = RadialGradient x canvas_c 0 x canvas_c rr
            [(0, Css ''#1a2a4a''), (0.7, Css ''#0f1a35''), (1, Css ''#0a0f20'')];
          siderealHandGrad = LinearGradient 0 (- 1) 0 1
            [(0, Css ''#c89968''), (0.5, Css ''#fae8d8''), (1, Css ''#b88958'')]
      in [BeginPath,
          Arc x canvas_c rr 0 (pi * 2),
          FillStyle siderealGradient,
          Fill,
          StrokeStyle (Flat (Css ''#F0D4C3'')),
          LineWidth 2,
          Stroke,
          FillStyle (Flat (Css ''#F0D4C3'')),
          Font ''12px serif'',
          TextAlign ''center'',
          TextBaseline ''middle'',
          FillText ''12'' x (canvas_c - rr * 0.65),
          FillText ''3'' (x + rr * 0.65) canvas_c,
          FillText ''6'' x (canvas_c + rr * 0.65),
          FillText ''9'' (x - rr * 0.65) canvas_c,
          Save,
          Translate x canvas_c,
          Rotate (getSiderealAngle date + pi / 6),
          BeginPath,
          MoveTo 0 0,
          LineTo (rr * 0.55) 0,
          StrokeStyle siderealHandGrad,
          LineWidth 2,
          LineCap ''round'',
          Stroke,
          Restore])"

text \<open>\<open>Number.prototype.toString\<close> on an integer: its decimal digits.\<close>

fun digits :: "nat \<Rightarrow> string" where
  "digits n = (if n < 10 then [char_of (48 + n)] else digits (n div 10) @ [char_of (48 + n mod 10)])"

definition toString :: "int \<Rightarrow> string" where
  "toString i = (if i < 0 then CHR ''-'' # digits (nat (- i)) else digits (nat i))"

definition drawDate :: "jsdate \<Rightarrow> cmd list" where
  "drawDate date =
     (let w = canvas_r * 0.3;
          h = canvas_r * 0.2;
          x = canvas_c + canvas_r * 0.55 - w / 2;
          centerY = canvas_c;
          leftHeight = h * 0.7;
          rightHeight = h;
          topShadow = LinearGradient (x + w / 2) (centerY - rightHeight / 2)
                                     (x + w / 2) (centerY - rightHeight / 2 + 8)
            [(0, Rgba 0 0 0 0.5), (1, Rgba 0 0 0 0)];
          leftShadow = LinearGradient x centerY (x + 6) centerY
            [(0, Rgba 0 0 0 0.4), (1, Rgba 0 0 0 0)]
      in [BeginPath,
          MoveTo x (centerY - leftHeight / 2),
          LineTo (x + w) (centerY - rightHeight / 2),
          LineTo (x + w) (centerY + rightHeight / 2),
          LineTo x (centerY + leftHeight / 2),
          ClosePath,
          FillStyle (Flat (Css ''#0f1a35'')),
          Fill,
          Save,
          BeginPath,
          MoveTo x (centerY - leftHeight / 2),
          LineTo (x + w) (centerY - rightHeight / 2),
          LineTo (x + w) (centerY - rightHeight / 2 + 8),
          LineTo x (centerY - leftHeight / 2 + 6),
          ClosePath,
          FillStyle topShadow,
          Fill,
          BeginPath,
          MoveTo x (centerY - leftHeight / 2),
          LineTo (x + 6) (centerY - leftHeight / 2 + 3),
          LineTo (x + 6) (centerY + leftHeight / 2 - 3),
          LineTo x (centerY + leftHeight / 2),
          ClosePath,
          FillStyle leftShadow,
          Fill,
          Restore,
          BeginPath,
          MoveTo x (centerY - leftHeight / 2),
          LineTo (x + w) (centerY - rightHeight / 2),
          LineTo (x + w) (centerY + rightHeight / 2),
          LineTo x (centerY + leftHeight / 2),
          ClosePath,
          StrokeStyle (Flat (Css ''#F0D4C3'')),
          LineWidth 2,
          Stroke,
          FillStyle (Flat (Css ''#F0D4C3'')),
          Font ''28px 'Palatino Linotype', serif'',
          TextAlign ''center'',
          TextBaseline ''middle'',
          FillText (toString (getDate date)) (x + w / 2) centerY])"

text \<open>
  One word of the Swiss-made marking: the letters in reverse order, each drawn after a
  rotation by its own angle along the arc. This is the \<open>forEach\<close> that \<open>drawSwissMade\<close>
  runs for each of its two words.
\<close>

definition arcLetters :: "string \<Rightarrow> real \<Rightarrow> real \<Rightarrow> real \<Rightarrow> cmd list" where
  "arcLetters word start step radius =
     concat (map (\<lambda>(i, ch).
       let a = start + real i * step
       in [Save,
           Rotate a,
           Translate 0 (- radius),
           Rotate pi,
           FillText [ch] 0 0,
           Restore]) (enumerate 0 (rev word)))"

definition drawSwissMade :: "cmd list" where
  "drawSwissMade =
     (let swiss = ''SWISS'';
          made = ''MADE'';
          radius = canvas_r * 0.82;
          swissArcLength = pi / 8;
          swissCenter = (7 * pi) / 6 - pi / 12;
          swissStart = swissCenter - swissArcLength / 2;
          swissStep = swissArcLength / (real (length swiss) - 1);
          madeArcLength = pi / 10;
          madeCenter = (11 * pi) / 12;
          madeStart = madeCenter - madeArcLength / 2;
          madeStep = madeArcLength / (real (length made) - 1)
      in [Save,
          Translate canvas_c canvas_c,
          Font ''8px serif'',
          FillStyle (Flat (Css ''#e5e4e2'')),
          TextAlign ''center'',
          TextBaseline ''middle''] @
         arcLetters swiss swissStart swissStep radius @
         arcLetters made madeStart madeStep radius @
         [Restore])"

definition drawCase :: "assets \<Rightarrow> cmd list" where
  "drawCase as = [DrawImage (caseImage as) 0 0 canvas_size canvas_size]"

text \<open>The tint scalar of the crystal's third pass, from its own clock reading.\<close>

definition arTint_of :: "int \<Rightarrow> real" where
  "arTint_of now = sin (of_int now / 5000) * 0.5 + 0.5"

definition drawCrystal :: "int \<Rightarrow> real \<Rightarrow> cmd list" where
  "drawCrystal now breathe =
     (let edgeGradient = RadialGradient canvas_c canvas_c (canvas_r * 0.85) canvas_c canvas_c canvas_r
            [(0, Rgba 255 255 255 0), (0.7, Rgba 255 255 255 0),
             (0.85, Rgba 255 255 255 0.04), (1, Rgba 255 255 255 0.08)];
          reflectionIntensity = 0.08 + breathe * 0.02;
          reflectionGradient =
            LinearGradient (canvas_c - canvas_r * 0.6) (canvas_c - canvas_r * 0.8)
                           (canvas_c + canvas_r * 0.6) (canvas_c + canvas_r * 0.3)
              [(0, Rgba 255 255 255 0),
               (0.3, Rgba 255 255 255 reflectionIntensity),
               (0.5, Rgba 255 255 255 (reflectionIntensity * 1.5)),
               (0.7, Rgba 255 255 255 reflectionIntensity),
               (1, Rgba 255 255 255 0)];
          arTint = arTint_of now;
          arGradient =
            RadialGradient (canvas_c - canvas_r * 0.3) (canvas_c - canvas_r * 0.3) 0
                           canvas_c canvas_c canvas_r
              [(0, Rgba 100 150 255 (0.015 + arTint * 0.01)),
               (0.4, Rgba 150 100 255 (0.01 + arTint * 0.008)),
               (1, Rgba 100 150 255 0)];
          domeGradient =
            RadialGradient (canvas_c - canvas_r * 0.2) (canvas_c - canvas_r * 0.2) 0
                           canvas_c canvas_c (canvas_r * 0.6)
              [(0, Rgba 255 255 255 0.03), (0.5, Rgba 255 255 255 0.01), (1, Rgba 255 255 255 0)]
      in [Save,
          BeginPath,
          Arc canvas_c canvas_c canvas_r 0 (pi * 2),
          FillStyle edgeGradient,
          Fill,
          BeginPath,
          Arc canvas_c canvas_c canvas_r 0 (pi * 2),
          Clip,
          FillStyle reflectionGradient,
          FillRect (canvas_c - canvas_r) (canvas_c - canvas_r) (canvas_r * 2) (canvas_r * 2),
          FillStyle arGradient,
          FillRect (canvas_c - canvas_r) (canvas_c - canvas_r) (canvas_r * 2) (canvas_r * 2),
          FillStyle domeGradient,
          FillRect (canvas_c - canvas_r) (canvas_c - canvas_r) (canvas_r * 2) (canvas_r * 2),
          Restore])"

subsection \<open>The frame\<close>

text \<open>The breathing scalar, and the locals \<open>s\<close>, \<open>m\<close>, \<open>h\<close> and \<open>g\<close> of \<open>drawWatch\<close>.\<close>

definition breathe_of :: "int \<Rightarrow> real" where
  "breathe_of now = sin (of_int now / 3000) * 0.5 + 0.5"

definition drawWatch_s :: "jsdate \<Rightarrow> real" where
  "drawWatch_s now = of_int (getSeconds now) + of_int (getMilliseconds now) / 1000"

definition drawWatch_m :: "jsdate \<Rightarrow> real" where
  "drawWatch_m now = of_int (getMinutes now) + drawWatch_s now / 60"

definition drawWatch_h :: "jsdate \<Rightarrow> real" where
  "drawWatch_h now = js_rem (of_int (getHours now)) 12 + drawWatch_m now / 60"

definition drawWatch_g :: "jsdate \<Rightarrow> int \<Rightarrow> real" where
  "drawWatch_g now gmtOffset =
     js_rem (of_int (getHours now) + of_int gmtOffset + drawWatch_m now / 60) 24"

definition smallNumerals :: "(string \<times> real) list" where
  "smallNumerals =
     [(''I'', - pi / 2 + pi / 6),
      (''II'', - pi / 2 + 2 * pi / 6),
      (''IV'', - pi / 2 + 4 * pi / 6),
      (''V'', - pi / 2 + 5 * pi / 6),
      (''VII'', - pi / 2 + 7 * pi / 6),
      (''VIII'', - pi / 2 + 8 * pi / 6),
      (''X'', - pi / 2 + 10 * pi / 6),
      (''XI'', - pi / 2 + 11 * pi / 6)]"

text \<open>
  One frame reads the wall clock seven times, in this order: \<open>Date.now()\<close> for the
  breathing scalar (reading 0), \<open>Date.now()\<close> in \<open>drawBatons\<close> (1), \<open>new Date()\<close> for
  the clock reading (2), \<open>Date.now()\<close> in the two calls of \<open>drawBreguetHand\<close> (3, 4), in
  \<open>drawSecondsHand\<close> (5) and in \<open>drawCrystal\<close> (6). \<open>clk k\<close> is what reading \<open>k\<close>
  returns, as a date; \<open>Date.now()\<close> is its \<open>getTime\<close>. \<open>drawGuilloche\<close> is never
  called and is left out.
\<close>

definition drawWatch :: "(nat \<Rightarrow> jsdate) \<Rightarrow> int \<Rightarrow> assets \<Rightarrow> cmd list" where
  "drawWatch clk gmtOffset as =
     (let breathe = breathe_of (getTime (clk 0));
          dialGradient = RadialGradient canvas_c canvas_c 0 canvas_c canvas_c canvas_r
            [(0, Css ''#1a2a4a''), (0.7, Css ''#0f1a35''), (1, Css ''#0a0f20'')];
          now = clk 2;
          s = drawWatch_s now;
          m = drawWatch_m now;
          h = drawWatch_h now;
          g = drawWatch_g now gmtOffset
      in [ClearRect 0 0 canvas_size canvas_size,
          BeginPath,
          Arc canvas_c canvas_c canvas_r 0 (pi * 2),
          FillStyle dialGradient,
          Fill,
          StrokeStyle (Flat (Css ''#0a0f20'')),
          LineWidth 4,
          Stroke] @
         drawMinuteTrack @
         drawBatons (getTime (clk 1)) @
         [FillStyle (Flat (Css ''#F0D4C3'')),
          TextAlign ''center'',
          TextBaseline ''middle'',
          Font ''26px serif'',
          FillText ''XII'' canvas_c (canvas_c - canvas_r * 0.72),
          Font ''22px serif''] @
         concat (map (\<lambda>(text, angle).
           let radius = canvas_r * 0.70;
               x = canvas_c + cos angle * radius;
               y = canvas_c + sin angle * radius
           in [FillText text x y]) smallNumerals) @
         [FillStyle (Flat (Css ''#e5e4e2'')),
          Font ''18px serif'',
          FillText ''David Turner'' canvas_c (canvas_c - canvas_r * 0.48),
          Font ''14px serif'',
          FillText ''Horology'' canvas_c (canvas_c - canvas_r * 0.40)] @
         drawSwissMade @
         drawMoon as now @
         drawSidereal now breathe @
         drawDate now @
         drawGMTHand ((g * pi) / 12) @
         drawBreguetHand (getTime (clk 3)) ((h * pi) / 6) (canvas_r * 0.5) ''#F0D4C3'' @
         drawBreguetHand (getTime (clk 4)) ((m * pi) / 30) (canvas_r * 0.7) ''#F0D4C3'' @
         drawSecondsHand (getTime (clk 5)) ((s * pi) / 30) @
         [BeginPath,
          Arc canvas_c canvas_c 4 0 (pi * 2),
          FillStyle (Flat (Css ''#111'')),
          Fill] @
         drawCase as @
         drawCrystal (getTime (clk 6)) breathe)"

text \<open>
  One tick of \<open>animate\<close>. The effect returns at once, drawing nothing, when the canvas
  has no 2D context.
\<close>

definition animate :: "bool \<Rightarrow> (nat \<Rightarrow> jsdate) \<Rightarrow> int \<Rightarrow> assets \<Rightarrow> cmd list" where
  "animate ctx clk gmtOffset as = (if \<not> ctx then [] else drawWatch clk gmtOffset as)"

section \<open>Loading the moon images\<close>

text \<open>
  The loading effect, with the host's part as input: what each fetch chain settles to
  (an object URL, or a failure: a rejected fetch or a response that is not \<open>ok\<close>), and
  the \<open>load\<close> and \<open>error\<close> events the created images fire afterwards, in their order of
  arrival.
\<close>

datatype fetched = ObjectURL string | Failed

datatype console_line =
    Error_loading string
  | Loaded_moon_phase nat nat nat
  | All_loaded
  | Failed_to_create nat

datatype image_event = Onload nat | Onerror nat

record loader =
  loadedCount :: nat
  images :: "image option list"
  flag :: bool
  console :: "console_line list"

definition moonPhaseFiles :: "string list" where
  "moonPhaseFiles =
     [''New_Moon.svg'', ''Waxing_Crescent.svg'', ''First_Quarter.svg'', ''Waxing_Gibbous.svg'',
      ''Full_Moon.svg'', ''Waning_Gibbous.svg'', ''Last_Quarter.svg'', ''Waning_Crescent.svg'']"

text \<open>The \<open>catch\<close> of one fetch chain: a failure is logged and becomes \<open>null\<close>.\<close>

fun fetch_url :: "string \<times> fetched \<Rightarrow> string option \<times> console_line list" where
  "fetch_url (file, ObjectURL url) = (Some url, [])"
| "fetch_url (file, Failed) = (None, [Error_loading file])"

text \<open>
  \<open>images[index] = img\<close> on an array that starts empty: the array ends at the last index
  assigned, with holes before it.
\<close>

definition sparse_array :: "'a option list \<Rightarrow> 'a option list" where
  "sparse_array xs = rev (dropWhile (\<lambda>x. x = None) (rev xs))"

text \<open>
  The callback of \<open>Promise.all\<close>: an image is created for each URL that is not \<open>null\<close>;
  it is not complete before its \<open>load\<close> event.
\<close>

definition start_loading :: "fetched list \<Rightarrow> loader" where
  "start_loading outcomes =
     (let settled = map fetch_url (zip moonPhaseFiles outcomes);
          urls = map fst settled
      in \<lparr>loadedCount = 0,
          images = sparse_array
            (map (map_option (\<lambda>url. \<lparr>src = url, complete = False\<rparr>)) urls),
          flag = False,
          console = concat (map snd settled)\<rparr>)"

text \<open>
  The handlers \<open>img.onload\<close> and \<open>img.onerror\<close> of the image at \<open>index\<close>. An index
  without an image has no handler.
\<close>

fun handle_event :: "loader \<Rightarrow> image_event \<Rightarrow> loader" where
  "handle_event st (Onload index) =
     (case array_get (images st) index of
        None \<Rightarrow> st
      | Some img \<Rightarrow>
          (let n = loadedCount st + 1;
               st1 = st\<lparr>loadedCount := n,
                        images := (images st)[index := Some (img\<lparr>complete := True\<rparr>)],
                        console := console st @ [Loaded_moon_phase index n (length moonPhaseFiles)]\<rparr>
           in if n = length moonPhaseFiles
              then st1\<lparr>flag := True, console := console st1 @ [All_loaded]\<rparr>
              else st1))"
| "handle_event st (Onerror index) =
     (case array_get (images st) index of
        None \<Rightarrow> st
      | Some img \<Rightarrow> st\<lparr>console := console st @ [Failed_to_create index]\<rparr>)"

definition load_moon_images :: "fetched list \<Rightarrow> image_event list \<Rightarrow> loader" where
  "load_moon_images outcomes events = foldl handle_event (start_loading outcomes) events"


text \<open>
  What a frame sees of the loader. The drawing effect depends on \<open>gmtOffset\<close> only, so
  its routines read the \<open>moonImagesLoaded\<close> of the render in which the effect was created
  (at mount, and again after each key press), while the array is read through the ref, as
  it is now.
\<close>

definition frame_assets :: "loader \<Rightarrow> loader \<Rightarrow> image \<Rightarrow> assets" where
  "frame_assets at_effect current img =
     \<lparr>moonImagesLoaded = flag at_effect, moonPhaseImages = images current, caseImage = img\<rparr>"

section \<open>The specification's formulas\<close>

text \<open>
  The specification words four of the computations its own way. They are written here
  as it words them, to be compared with the functions of the source above.

  The phase index is a lookup in a table of day thresholds: the index of the first
  threshold the age is below, and 7 when there is none. The thresholds are JavaScript
  numbers.
\<close>

definition phase_thresholds :: "(real \<times> nat) list" where
  "phase_thresholds =
     [(double 1.84, 0), (double 7.38, 1), (double 9.23, 2), (double 14.77, 3),
      (double 16.61, 4), (double 22.15, 5), (double 23.99, 6)]"

definition spec_moonPhaseIndex :: "real \<Rightarrow> nat" where
  "spec_moonPhaseIndex age =
     (case find (\<lambda>(b, i). age < b) phase_thresholds of Some (b, i) \<Rightarrow> i | None \<Rightarrow> 7)"

text \<open>The normalization of \<open>x\<close> modulo a period: the representative in \<open>[0, period)\<close>.\<close>

definition normalize_mod :: "real \<Rightarrow> real \<Rightarrow> real" where
  "normalize_mod x period = x - period * of_int \<lfloor>x / period\<rfloor>"

text \<open>The moon age as a formula of exact arithmetic.\<close>

definition spec_moonAge :: "int \<Rightarrow> real" where
  "spec_moonAge ms = normalize_mod ((of_int ms - of_int ref_getTime) / 86400000) 29.53059"

definition spec_siderealAngle :: "int \<Rightarrow> real" where
  "spec_siderealAngle ms =
     (let JD = of_int ms / 86400000 + 2440587.5;
          daysSinceJ2000 = JD - 2451545.0;
          gmst = normalize_mod (280.46061837 + 360.98564736629 * daysSinceJ2000) 360;
          deg = normalize_mod (gmst + (- 0.1278)) 360
      in deg / 360 * (2 * pi))"



section \<open>Values that are not numbers\<close>

text \<open>
  A JavaScript number may also be \<open>NaN\<close> or an infinity, and both spread through every
  later operation. \<open>None\<close> stands for such a value. On finite operands only a division or
  a remainder by zero produces one. The three derived values are evaluated once more with
  these operations.
\<close>

type_synonym jsnum = "real option"

definition num_lift :: "(real \<Rightarrow> real \<Rightarrow> real) \<Rightarrow> jsnum \<Rightarrow> jsnum \<Rightarrow> jsnum" where
  "num_lift f x y = (case (x, y) of (Some a, Some b) \<Rightarrow> Some (f a b) | _ \<Rightarrow> None)"

definition num_div :: "jsnum \<Rightarrow> jsnum \<Rightarrow> jsnum" where
  "num_div x y =
     (case (x, y) of (Some a, Some b) \<Rightarrow> if b = 0 then None else Some (a / b) | _ \<Rightarrow> None)"

definition num_rem :: "jsnum \<Rightarrow> jsnum \<Rightarrow> jsnum" where
  "num_rem x y =
     (case (x, y) of (Some a, Some b) \<Rightarrow> if b = 0 then None else Some (js_rem a b) | _ \<Rightarrow> None)"

definition moonAge_num :: "jsdate \<Rightarrow> jsnum" where
  "moonAge_num date =
     (let days = map_option double
            (num_div (map_option double
                        (num_lift (-) (Some (of_int (getTime date))) (Some (of_int ref_getTime))))
                     (Some (1000 * 60 * 60 * 24)))
      in num_rem (map_option double
                    (num_lift (+) (num_rem days (Some LUNAR_CYCLE)) (Some LUNAR_CYCLE)))
                 (Some LUNAR_CYCLE))"

definition drawWatch_g_num :: "jsdate \<Rightarrow> int \<Rightarrow> jsnum" where
  "drawWatch_g_num now gmtOffset =
     (let s = num_lift (+) (Some (of_int (getSeconds now)))
                (num_div (Some (of_int (getMilliseconds now))) (Some 1000));
          m = num_lift (+) (Some (of_int (getMinutes now))) (num_div s (Some 60))
      in num_rem (num_lift (+) (num_lift (+) (Some (of_int (getHours now))) (Some (of_int gmtOffset)))
                               (num_div m (Some 60)))
                 (Some 24))"

definition getSiderealAngle_num :: "jsdate \<Rightarrow> jsnum" where
  "getSiderealAngle_num date =
     (let JD = num_lift (+) (num_div (Some (of_int (getTime date))) (Some 86400000)) (Some 2440587.5);
          D = num_lift (-) JD (Some 2451545.0);
          GMST = num_lift (+) (Some 280.46061837) (num_lift (*) (Some 360.98564736629) D);
          GMST = num_rem (num_lift (+) (num_rem GMST (Some 360)) (Some 360)) (Some 360);
          longitude = Some (- 0.1278);
          LST = num_lift (+) GMST longitude;
          LST = num_rem (num_lift (+) (num_rem LST (Some 360)) (Some 360)) (Some 360)
      in num_lift (*) (num_lift (*) (num_div LST (Some 360)) (Some pi)) (Some 2))"

section \<open>Reading a command list\<close>

text \<open>The angles of the rotations a routine makes, in order.\<close>

fun rotation_of :: "cmd \<Rightarrow> real list" where
  "rotation_of (Rotate a) = [a]"
| "rotation_of _ = []"

definition rotations :: "cmd list \<Rightarrow> real list" where
  "rotations cmds = concat (map rotation_of cmds)"

text \<open>The images a routine draws, in order.\<close>

fun image_of :: "cmd \<Rightarrow> image list" where
  "image_of (DrawImage img x y w h) = [img]"
| "image_of _ = []"

definition drawn_images :: "cmd list \<Rightarrow> image list" where
  "drawn_images cmds = concat (map image_of cmds)"

text \<open>The alphas of every \<open>rgba\<close> colour a routine assigns to a drawing style.\<close>

fun colour_alphas :: "colour \<Rightarrow> real list" where
  "colour_alphas (Css s) = []"
| "colour_alphas (Rgba r g b a) = [a]"

fun paint_alphas :: "paint \<Rightarrow> real list" where
  "paint_alphas (Flat col) = colour_alphas col"
| "paint_alphas (LinearGradient x0 y0 x1 y1 stops) = concat (map (\<lambda>(offset, col). colour_alphas col) stops)"
| "paint_alphas (RadialGradient x0 y0 r0 x1 y1 r1 stops) = concat (map (\<lambda>(offset, col). colour_alphas col) stops)"

fun cmd_alphas :: "cmd \<Rightarrow> real list" where
  "cmd_alphas (FillStyle p) = paint_alphas p"
| "cmd_alphas (StrokeStyle p) = paint_alphas p"
| "cmd_alphas _ = []"

definition alphas :: "cmd list \<Rightarrow> real list" where
  "alphas cmds = concat (map cmd_alphas cmds)"

section \<open>The state of the context\<close>

text \<open>
  The 2D context keeps its drawing state between calls and between frames: a property
  that is assigned stays until it is assigned again, \<open>save\<close> pushes the state on a stack
  and \<open>restore\<close> pops it (and does nothing on an empty stack). Of that state, the line
  cap is followed here: the cap in force, and the caps saved. \<open>stroke_caps\<close> lists the cap
  each \<open>stroke\<close> of a routine is drawn with. A context that has just been sized has the
  cap \<open>butt\<close> and nothing saved.
\<close>

type_synonym cap_state = "string \<times> string list"

fun lineCap_step :: "cap_state \<Rightarrow> cmd \<Rightarrow> cap_state" where
  "lineCap_step (cap, saved) Save = (cap, cap # saved)"
| "lineCap_step (cap, []) Restore = (cap, [])"
| "lineCap_step (cap, prev # saved) Restore = (prev, saved)"
| "lineCap_step (cap, saved) (LineCap s) = (s, saved)"
| "lineCap_step st _ = st"

definition lineCap_run :: "cap_state \<Rightarrow> cmd list \<Rightarrow> cap_state" where
  "lineCap_run st cmds = foldl lineCap_step st cmds"

fun stroke_caps :: "cap_state \<Rightarrow> cmd list \<Rightarrow> string list" where
  "stroke_caps st [] = []"
| "stroke_caps st (Stroke # cmds) = fst st # stroke_caps st cmds"
| "stroke_caps st (x # cmds) = stroke_caps (lineCap_step st x) cmds"

definition fresh_context :: cap_state where
  "fresh_context = (''butt'', [])"

section \<open>Concrete inputs\<close>

text \<open>
  The reference instant 2026-01-19T00:00:00Z, read on a host whose local time is UTC, and
  on the same host the instants 6 days, two lunar cycles and three lunar cycles later.
  One lunar cycle, 29.53059 days, is 2551442976 milliseconds.
\<close>

definition epoch_date :: jsdate where
  "epoch_date = \<lparr>getTime = 1768780800000, getHours = 0, getMinutes = 0, getSeconds = 0,
                  getMilliseconds = 0, getDate = 19\<rparr>"

definition six_days_date :: jsdate where
  "six_days_date = \<lparr>getTime = 1769299200000, getHours = 0, getMinutes = 0, getSeconds = 0,
                     getMilliseconds = 0, getDate = 25\<rparr>"

definition two_cycles_date :: jsdate where
  "two_cycles_date = \<lparr>getTime = 1773883685952, getHours = 1, getMinutes = 28, getSeconds = 5,
                       getMilliseconds = 952, getDate = 19\<rparr>"

definition three_cycles_date :: jsdate where
  "three_cycles_date = \<lparr>getTime = 1776435128928, getHours = 14, getMinutes = 12, getSeconds = 8,
                         getMilliseconds = 928, getDate = 17\<rparr>"

text \<open>
  22.15 days after the reference instant, 2026-02-10T03:36:00Z, and one lunar cycle after
  that, on the same host.
\<close>

definition waning_date :: jsdate where
  "waning_date = \<lparr>getTime = 1770694560000, getHours = 3, getMinutes = 36, getSeconds = 0,
                   getMilliseconds = 0, getDate = 10\<rparr>"

definition waning_next_date :: jsdate where
  "waning_next_date = \<lparr>getTime = 1773246002976, getHours = 16, getMinutes = 20, getSeconds = 2,
                        getMilliseconds = 976, getDate = 11\<rparr>"

text \<open>
  Assets as a frame sees them when the drawing effect has been created anew after the
  loading came to rest: once when every fetch and every image load succeeded, once when the
  fetch of \<open>Waxing_Gibbous.svg\<close> failed and the seven other images loaded. And the assets
  of a frame before any image has loaded.
\<close>

definition case_image :: image where
  "case_image = \<lparr>src = ''data:image/svg+xml;base64'', complete = True\<rparr>"

definition all_fetched :: "fetched list" where
  "all_fetched = map (\<lambda>file. ObjectURL (''blob:'' @ file)) moonPhaseFiles"

definition loaded_all :: assets where
  "loaded_all =
     frame_assets (load_moon_images all_fetched (map Onload [0, 1, 2, 3, 4, 5, 6, 7]))
                  (load_moon_images all_fetched (map Onload [0, 1, 2, 3, 4, 5, 6, 7])) case_image"

definition one_failed :: "fetched list" where
  "one_failed = all_fetched[3 := Failed]"

definition loaded_seven :: assets where
  "loaded_seven =
     frame_assets (load_moon_images one_failed (map Onload [0, 1, 2, 4, 5, 6, 7]))
                  (load_moon_images one_failed (map Onload [0, 1, 2, 4, 5, 6, 7])) case_image"


section \<open>Facts about the truncated remainder\<close>

lemma js_trunc_bounds:
  "\<bar>x - of_int (js_trunc x)\<bar> < 1"
  unfolding js_trunc_def by (simp; linarith)

text \<open>
  The idiom \<open>((x % L) + L) % L\<close> of the source is the normalization modulo \<open>L\<close>.
\<close>

lemma js_rem_floor:
  assumes "0 < L"
  shows "js_rem (js_rem x L + L) L = normalize_mod x L"
proof -
  define t where "t = js_trunc (x / L)"
  define y where "y = js_rem x L + L"
  have y_eq: "y = x - L * of_int t + L" by (simp add: y_def js_rem_def t_def)
  have "\<bar>x / L - of_int t\<bar> < 1" unfolding t_def by (rule js_trunc_bounds)
  then have "\<bar>x - L * of_int t\<bar> < L" using assms
    by (simp add: field_simps abs_less_iff)
  then have y_pos: "0 < y" and y_lt: "y < 2 * L" unfolding y_eq by linarith+
  have yL: "0 \<le> y / L" using y_pos assms by simp
  define k where "k = \<lfloor>y / L\<rfloor>"
  have r: "js_rem y L = y - L * of_int k" using yL by (simp add: js_rem_def js_trunc_def k_def)
  have "of_int k \<le> y / L" "y / L < of_int k + 1" unfolding k_def by linarith+
  then have b: "0 \<le> y - L * of_int k" "y - L * of_int k < L" using assms
    by (simp_all add: field_simps)
  have "\<lfloor>x / L\<rfloor> = t - 1 + k"
  proof (rule floor_unique)
    show "of_int (t - 1 + k) \<le> x / L" using b assms unfolding y_eq by (simp add: field_simps)
    show "x / L < of_int (t - 1 + k) + 1" using b assms unfolding y_eq by (simp add: field_simps)
  qed
  then have "real_of_int \<lfloor>x / L\<rfloor> = of_int t - 1 + of_int k" by simp
  then have "x - L * of_int \<lfloor>x / L\<rfloor> = y - L * of_int k"
    unfolding y_eq by (simp only:) (simp add: algebra_simps)
  then show ?thesis using r unfolding y_def normalize_mod_def by simp
qed

lemma normalize_mod_range:
  assumes "0 < L"
  shows "0 \<le> normalize_mod x L" and "normalize_mod x L < L"
proof -
  have a: "of_int \<lfloor>x / L\<rfloor> * L \<le> x"
    using assms by (simp add: pos_le_divide_eq[symmetric])
  have b: "x < (of_int \<lfloor>x / L\<rfloor> + 1) * L"
    using assms by (simp add: pos_divide_less_eq[symmetric])
  show "0 \<le> normalize_mod x L" using a unfolding normalize_mod_def by (simp add: algebra_simps)
  show "normalize_mod x L < L" using b unfolding normalize_mod_def by (simp add: algebra_simps)
qed

lemma normalize_mod_shift:
  assumes "0 < L"
  shows "normalize_mod (x + L * of_int n) L = normalize_mod x L"
proof -
  have "(x + L * of_int n) / L = x / L + of_int n" using assms by (simp add: field_simps)
  then have "\<lfloor>(x + L * of_int n) / L\<rfloor> = \<lfloor>x / L\<rfloor> + n" by simp
  then show ?thesis unfolding normalize_mod_def by (simp add: algebra_simps)
qed

lemma normalize_mod_add_period:
  assumes "0 < L"
  shows "normalize_mod (x + L) L = normalize_mod x L"
  using normalize_mod_shift[OF assms, of x 1] by simp

lemma getSiderealAngle_spec: "getSiderealAngle d = spec_siderealAngle (getTime d)"
  unfolding getSiderealAngle_def spec_siderealAngle_def Let_def
  by (simp add: js_rem_floor)

section \<open>Facts about rounding to doubles\<close>

lemma pow2_powr: "pow2 e = 2 powr of_int e"
  unfolding pow2_def by (simp add: powr_int)

lemma pow2_pos: "0 < pow2 e"
  unfolding pow2_powr by simp

lemma pow2_add: "pow2 (a + b) = pow2 a * pow2 b"
  unfolding pow2_powr by (simp add: powr_add)

lemma pow2_mono: "a \<le> b \<Longrightarrow> pow2 a \<le> pow2 b"
  unfolding pow2_powr by simp

lemma pow2_nonneg_exp: "0 \<le> e \<Longrightarrow> pow2 e = 2 ^ nat e"
  by (simp add: pow2_def)

lemma pow2_nonpos_exp: "e \<le> 0 \<Longrightarrow> pow2 e = 1 / 2 ^ nat (- e)"
  by (cases "e = 0") (simp_all add: pow2_def)

lemma binade_bounds:
  assumes "x \<noteq> 0"
  shows "pow2 (binade x) \<le> \<bar>x\<bar>" and "\<bar>x\<bar> < pow2 (binade x + 1)"
proof -
  define a where "a = \<bar>x\<bar>"
  have pos: "0 < a" using assms by (simp add: a_def)
  have "pow2 (binade x) \<le> a \<and> a < pow2 (binade x + 1)"
  proof (cases "1 \<le> a")
    case True
    define n where "n = \<lfloor>a\<rfloor>"
    have n: "0 < n" using True by (simp add: n_def)
    have b: "binade x = bitlen n - 1" using True by (simp add: binade_def a_def n_def)
    have k: "1 \<le> bitlen n" using n bitlen_bounds[OF n] bitlen_nonneg[of n]
      by (cases "bitlen n = 0") auto
    have lo: "(2::int) ^ nat (bitlen n - 1) \<le> n" and hi: "n < 2 ^ nat (bitlen n)"
      using bitlen_bounds[OF n] by simp_all
    have "real_of_int (2 ^ nat (bitlen n - 1)) \<le> real_of_int n" using lo by (simp only: of_int_le_iff)
    then have "(2::real) ^ nat (bitlen n - 1) \<le> real_of_int n" by simp
    also have "real_of_int n \<le> a" by (simp add: n_def)
    finally have l: "pow2 (binade x) \<le> a"
      unfolding b using k by (simp add: pow2_nonneg_exp)
    have "n + 1 \<le> 2 ^ nat (bitlen n)" using hi by simp
    then have "real_of_int (n + 1) \<le> real_of_int (2 ^ nat (bitlen n))" by (simp only: of_int_le_iff)
    then have "real_of_int n + 1 \<le> 2 ^ nat (bitlen n)" by simp
    moreover have "a < real_of_int n + 1" by (simp add: n_def)
    ultimately have "a < 2 ^ nat (bitlen n)" by linarith
    then have h: "a < pow2 (binade x + 1)"
      unfolding b using k by (simp add: pow2_nonneg_exp)
    show ?thesis using l h by simp
  next
    case False
    then have lt: "a < 1" by simp
    define y where "y = 1 / a"
    have y: "1 < y" using pos lt by (simp add: y_def)
    define m where "m = \<lceil>y\<rceil> - 1"
    have m: "0 < m" using y by (simp add: m_def)
    have b: "binade x = - bitlen m" using False by (simp add: binade_def a_def m_def y_def)
    have k: "1 \<le> bitlen m" using m bitlen_bounds[OF m] bitlen_nonneg[of m]
      by (cases "bitlen m = 0") auto
    have lo: "(2::int) ^ nat (bitlen m - 1) \<le> m" and hi: "m < 2 ^ nat (bitlen m)"
      using bitlen_bounds[OF m] by simp_all
    have "m + 1 \<le> 2 ^ nat (bitlen m)" using hi by simp
    then have "real_of_int (m + 1) \<le> real_of_int (2 ^ nat (bitlen m))" by (simp only: of_int_le_iff)
    then have "real_of_int m + 1 \<le> 2 ^ nat (bitlen m)" by simp
    moreover have "y \<le> real_of_int m + 1" by (simp add: m_def)
    ultimately have "y \<le> 2 ^ nat (bitlen m)" by linarith
    then have "1 / 2 ^ nat (bitlen m) \<le> a"
      using pos unfolding y_def by (simp add: field_simps)
    then have l: "pow2 (binade x) \<le> a"
      unfolding b using k by (simp add: pow2_nonpos_exp)
    have "real_of_int (2 ^ nat (bitlen m - 1)) \<le> real_of_int m" using lo by (simp only: of_int_le_iff)
    then have "(2::real) ^ nat (bitlen m - 1) \<le> real_of_int m" by simp
    moreover have "real_of_int m < y" by (simp add: m_def) linarith
    ultimately have "(2::real) ^ nat (bitlen m - 1) < y" by linarith
    then have "a < 1 / 2 ^ nat (bitlen m - 1)"
      using pos unfolding y_def by (simp add: field_simps)
    moreover have "nat (- (- bitlen m + 1)) = nat (bitlen m - 1)" by simp
    ultimately have h: "a < pow2 (binade x + 1)"
      unfolding b using k by (simp add: pow2_nonpos_exp)
    show ?thesis using l h by simp
  qed
  then show "pow2 (binade x) \<le> \<bar>x\<bar>" and "\<bar>x\<bar> < pow2 (binade x + 1)"
    by (simp_all add: a_def)
qed

lemma binade_unique:
  assumes "pow2 e \<le> \<bar>x\<bar>" and "\<bar>x\<bar> < pow2 (e + 1)"
  shows "binade x = e"
proof -
  have "x \<noteq> 0" using assms(1) pow2_pos[of e] by auto
  then have b: "pow2 (binade x) \<le> \<bar>x\<bar>" "\<bar>x\<bar> < pow2 (binade x + 1)"
    by (rule binade_bounds)+
  have "\<not> binade x < e"
  proof
    assume "binade x < e"
    then have "pow2 (binade x + 1) \<le> pow2 e" by (intro pow2_mono) simp
    then show False using b(2) assms(1) by linarith
  qed
  moreover have "\<not> e < binade x"
  proof
    assume "e < binade x"
    then have "pow2 (e + 1) \<le> pow2 (binade x)" by (intro pow2_mono) simp
    then show False using b(1) assms(2) by linarith
  qed
  ultimately show ?thesis by simp
qed

text \<open>The binade is the integer part of the logarithm to base 2.\<close>

lemma binade_log:
  assumes "x \<noteq> 0"
  shows "binade x = \<lfloor>log 2 \<bar>x\<bar>\<rfloor>"
proof -
  have pos: "0 < \<bar>x\<bar>" using assms by simp
  have "2 powr of_int (binade x) \<le> \<bar>x\<bar> \<and> \<bar>x\<bar> < 2 powr (of_int (binade x) + 1)"
    using binade_bounds[OF assms] unfolding pow2_powr by simp
  then show ?thesis using floor_log_eq_powr_iff[of "\<bar>x\<bar>" 2 "binade x"] pos by simp
qed

lemma rne_error: "\<bar>of_int (rne x) - x\<bar> \<le> 1 / 2"
  unfolding rne_def Let_def by (simp; linarith)

lemma rne_nonneg: "0 \<le> x \<Longrightarrow> 0 \<le> rne x"
  unfolding rne_def Let_def by (simp; linarith)

lemma rne_le: "x \<le> of_int n \<Longrightarrow> rne x \<le> n"
  unfolding rne_def Let_def by (simp; linarith)

text \<open>Evaluating \<open>double\<close> at a number whose binade is known.\<close>

lemma double_at:
  assumes "pow2 e \<le> \<bar>x\<bar>" and "\<bar>x\<bar> < pow2 (e + 1)"
    and "of_int (rne (x / pow2 (e - 52))) * pow2 (e - 52) = v"
  shows "double x = v"
proof -
  have "x \<noteq> 0" using assms(1) pow2_pos[of e] by auto
  then show ?thesis unfolding double_def binade_unique[OF assms(1,2)] using assms(3) by simp
qed

lemma double_nonneg:
  assumes "0 \<le> x"
  shows "0 \<le> double x"
proof (cases "x = 0")
  case True
  then show ?thesis by (simp add: double_def)
next
  case False
  have "0 \<le> x / pow2 (binade x - 52)" using assms pow2_pos[of "binade x - 52"] by simp
  then have "0 \<le> rne (x / pow2 (binade x - 52))" by (rule rne_nonneg)
  then show ?thesis using False pow2_pos[of "binade x - 52"] by (simp add: double_def)
qed

text \<open>The relative error of rounding is at most \<open>2 ^ - 53\<close>.\<close>

lemma double_error: "\<bar>double x - x\<bar> \<le> \<bar>x\<bar> / 2 ^ 53"
proof (cases "x = 0")
  case True
  then show ?thesis by (simp add: double_def)
next
  case False
  define u where "u = pow2 (binade x - 52)"
  have u: "0 < u" unfolding u_def by (rule pow2_pos)
  have d: "double x = of_int (rne (x / u)) * u" using False by (simp add: double_def u_def)
  have h: "\<bar>of_int (rne (x / u)) - x / u\<bar> \<le> 1 / 2" by (rule rne_error)
  have "(of_int (rne (x / u)) - x / u) * u = of_int (rne (x / u)) * u - x"
    using u by (simp add: left_diff_distrib)
  then have "\<bar>of_int (rne (x / u)) * u - x\<bar> = \<bar>(of_int (rne (x / u)) - x / u) * u\<bar>"
    by simp
  also have "\<dots> = \<bar>of_int (rne (x / u)) - x / u\<bar> * \<bar>u\<bar>" by (rule abs_mult)
  also have "\<dots> \<le> 1 / 2 * \<bar>u\<bar>" using h by (intro mult_right_mono) simp_all
  finally have e: "\<bar>double x - x\<bar> \<le> u / 2" unfolding d using u by simp
  have "binade x - 52 = binade x + (- 52)" by simp
  then have "u = pow2 (binade x) * pow2 (- 52)" unfolding u_def by (simp only: pow2_add)
  moreover have "pow2 (- 52) = 1 / 2 ^ 52" by (simp add: pow2_def)
  ultimately have "u = pow2 (binade x) / 2 ^ 52" by simp
  moreover have "pow2 (binade x) \<le> \<bar>x\<bar>" using False by (rule binade_bounds(1))
  ultimately have "u \<le> \<bar>x\<bar> / 2 ^ 52" by (simp add: divide_right_mono)
  then have "u / 2 \<le> \<bar>x\<bar> / 2 ^ 53" by simp
  then show ?thesis using e by linarith
qed

text \<open>A double of binade at least \<open>e\<close> is a multiple of \<open>2 ^ (e - 52)\<close>.\<close>

lemma double_grid:
  assumes "pow2 e \<le> \<bar>x\<bar>"
  shows "\<exists>n::int. double x = of_int n * pow2 (e - 52)"
proof -
  have nz: "x \<noteq> 0" using assms pow2_pos[of e] by auto
  have "e \<le> binade x"
  proof (rule ccontr)
    assume "\<not> e \<le> binade x"
    then have "binade x + 1 \<le> e" by simp
    then have "pow2 (binade x + 1) \<le> pow2 e" by (rule pow2_mono)
    then show False using binade_bounds(2)[OF nz] assms by linarith
  qed
  then obtain k :: nat where k: "binade x = e + int k"
    by (metis nonneg_int_cases diff_ge_0_iff_ge add_diff_cancel_left' diff_add_cancel add.commute)
  have "binade x - 52 = int k + (e - 52)" using k by simp
  then have "pow2 (binade x - 52) = pow2 (int k) * pow2 (e - 52)"
    by (simp only: pow2_add)
  moreover have "pow2 (int k) = of_int (2 ^ k)" by (simp add: pow2_def)
  ultimately have "double x
      = of_int (rne (x / pow2 (binade x - 52)) * 2 ^ k) * pow2 (e - 52)"
    using nz by (simp add: double_def)
  then show ?thesis by blast
qed

text \<open>Rounding does not leave the binade upwards.\<close>

lemma double_upper:
  assumes "0 \<le> x" and "x < pow2 k"
  shows "double x \<le> pow2 k"
proof (cases "x = 0")
  case True
  then show ?thesis using pow2_pos[of k] by (simp add: double_def)
next
  case False
  define b where "b = binade x"
  define u where "u = pow2 (b - 52)"
  have u: "0 < u" unfolding u_def by (rule pow2_pos)
  have ax: "\<bar>x\<bar> = x" using assms(1) by simp
  have lo: "pow2 b \<le> x" and hi: "x < pow2 (b + 1)"
    using binade_bounds[OF False] unfolding b_def ax by simp_all
  have "b + 1 \<le> k"
  proof (rule ccontr)
    assume "\<not> b + 1 \<le> k"
    then have "k \<le> b" by simp
    then have "pow2 k \<le> pow2 b" by (rule pow2_mono)
    then show False using lo assms(2) by linarith
  qed
  then have top: "pow2 (b + 1) \<le> pow2 k" by (rule pow2_mono)
  have "b + 1 = 53 + (b - 52)" by simp
  then have "pow2 (b + 1) = pow2 53 * pow2 (b - 52)" by (simp only: pow2_add)
  moreover have "pow2 53 = of_int (2 ^ 53)" by (simp add: pow2_def)
  ultimately have s: "pow2 (b + 1) = of_int (2 ^ 53) * u" unfolding u_def by simp
  have "x / u \<le> of_int (2 ^ 53)" using hi u unfolding s by (simp add: field_simps)
  then have "rne (x / u) \<le> 2 ^ 53" by (rule rne_le)
  then have "real_of_int (rne (x / u)) \<le> of_int (2 ^ 53)" by linarith
  then have "of_int (rne (x / u)) * u \<le> of_int (2 ^ 53) * u"
    using u by (intro mult_right_mono) simp_all
  then have "double x \<le> pow2 (b + 1)"
    using False unfolding s by (simp add: double_def u_def b_def)
  then show ?thesis using top by linarith
qed

text \<open>The doubles of the literals of the moon phase.\<close>

lemma LUNAR_CYCLE_value: "LUNAR_CYCLE = 8312122132501931 / 281474976710656"
  unfolding LUNAR_CYCLE_def
  by (rule double_at[where e = 4]) (simp_all add: pow2_def rne_def Let_def)

lemma threshold_values:
  "double 1.84 = 8286623314361713 / 4503599627370496"
  "double 7.38 = 8309141312498565 / 1125899906842624"
  "double 9.23 = 2598014035039355 / 281474976710656"
  "double 14.77 = 4157385406016389 / 281474976710656"
  "double 16.61 = 1168824840790999 / 70368744177664"
  "double 22.15 = 3117335367070515 / 140737488355328"
  "double 23.99 = 6752584691288637 / 281474976710656"
proof -
  show "double 1.84 = 8286623314361713 / 4503599627370496"
    by (rule double_at[where e = 0]) (simp_all add: pow2_def rne_def Let_def)
  show "double 7.38 = 8309141312498565 / 1125899906842624"
    by (rule double_at[where e = 2]) (simp_all add: pow2_def rne_def Let_def)
  show "double 9.23 = 2598014035039355 / 281474976710656"
    by (rule double_at[where e = 3]) (simp_all add: pow2_def rne_def Let_def)
  show "double 14.77 = 4157385406016389 / 281474976710656"
    by (rule double_at[where e = 3]) (simp_all add: pow2_def rne_def Let_def)
  show "double 16.61 = 1168824840790999 / 70368744177664"
    by (rule double_at[where e = 4]) (simp_all add: pow2_def rne_def Let_def)
  show "double 22.15 = 3117335367070515 / 140737488355328"
    by (rule double_at[where e = 4]) (simp_all add: pow2_def rne_def Let_def)
  show "double 23.99 = 6752584691288637 / 281474976710656"
    by (rule double_at[where e = 4]) (simp_all add: pow2_def rne_def Let_def)
qed

section \<open>The sidereal angle\<close>


lemma js_rem_int_shift:
  "\<exists>n::int. js_rem x L = x - L * of_int n"
  unfolding js_rem_def by blast

lemma js_rem_abs_less:
  assumes "0 < L"
  shows "\<bar>js_rem x L\<bar> < L"
proof -
  have "\<bar>x / L - of_int (js_trunc (x / L))\<bar> < 1" by (rule js_trunc_bounds)
  then show ?thesis using assms unfolding js_rem_def
    by (simp add: field_simps abs_less_iff)
qed

lemma js_rem_nonneg:
  assumes "0 < L" "0 \<le> x"
  shows "0 \<le> js_rem x L"
proof -
  have "0 \<le> x / L" using assms by simp
  then have t: "js_trunc (x / L) = \<lfloor>x / L\<rfloor>" by (simp add: js_trunc_def)
  have "js_rem x L = normalize_mod x L" unfolding js_rem_def normalize_mod_def t ..
  then show ?thesis using normalize_mod_range(1)[OF assms(1)] by simp
qed

lemma getSiderealAngle_range:
  "0 \<le> getSiderealAngle d" "getSiderealAngle d < 2 * pi"
proof -
  obtain y where y: "getSiderealAngle d = normalize_mod y 360 / 360 * (2 * pi)"
    unfolding getSiderealAngle_spec spec_siderealAngle_def Let_def by blast
  have a: "0 \<le> normalize_mod y 360" and b: "normalize_mod y 360 < 360"
    using normalize_mod_range[of 360 y] by simp_all
  show "0 \<le> getSiderealAngle d" unfolding y using a by simp
  have "normalize_mod y 360 / 360 < 1" using b by simp
  then have "normalize_mod y 360 / 360 * (2 * pi) < 1 * (2 * pi)"
    by (intro mult_strict_right_mono) simp_all
  then show "getSiderealAngle d < 2 * pi" unfolding y by simp
qed




section \<open>The moon age\<close>

lemma moonAge_epoch: "moonAge epoch_date = 0"
proof -
  have a: "double 0 = 0" by (simp add: double_def)
  have b: "double 0 = 0" by (simp add: double_def)
  have c: "js_rem (0) (8312122132501931 / 281474976710656) = 0"
    by (simp add: js_rem_def js_trunc_def)
  have d: "double (8312122132501931 / 281474976710656) = 8312122132501931 / 281474976710656"
    by (rule double_at[where e = "4"]) (simp_all add: pow2_def rne_def Let_def)
  have e: "js_rem (8312122132501931 / 281474976710656) (8312122132501931 / 281474976710656) = 0"
    by (simp add: js_rem_def js_trunc_def)
  have t: "real_of_int (getTime epoch_date) - real_of_int ref_getTime = 0"
    by (simp add: epoch_date_def ref_getTime_def)
  have q: "(0 :: real) / (1000 * 60 * 60 * 24) = 0" by simp
  have p: "(0 :: real) + 8312122132501931 / 281474976710656 = 8312122132501931 / 281474976710656" by simp
  show ?thesis
    unfolding moonAge_def Let_def LUNAR_CYCLE_value t a q b c p d e ..
qed

lemma moonAge_six_days: "moonAge six_days_date = 1688849860263937 / 281474976710656"
proof -
  have a: "double (518400000) = 518400000"
    by (rule double_at[where e = "28"]) (simp_all add: pow2_def rne_def Let_def)
  have b: "double (6) = 6"
    by (rule double_at[where e = "2"]) (simp_all add: pow2_def rne_def Let_def)
  have c: "js_rem (6) (8312122132501931 / 281474976710656) = 6"
    by (simp add: js_rem_def js_trunc_def)
  have d: "double (10000971992765867 / 281474976710656) = 2500242998191467 / 70368744177664"
    by (rule double_at[where e = "5"]) (simp_all add: pow2_def rne_def Let_def)
  have e: "js_rem (2500242998191467 / 70368744177664) (8312122132501931 / 281474976710656) = 1688849860263937 / 281474976710656"
    by (simp add: js_rem_def js_trunc_def)
  have t: "real_of_int (getTime six_days_date) - real_of_int ref_getTime = 518400000"
    by (simp add: six_days_date_def ref_getTime_def)
  have q: "(518400000 :: real) / (1000 * 60 * 60 * 24) = 6" by simp
  have p: "(6 :: real) + 8312122132501931 / 281474976710656 = 10000971992765867 / 281474976710656" by simp
  show ?thesis
    unfolding moonAge_def Let_def LUNAR_CYCLE_value t a q b c p d e ..
qed

lemma moonAge_two_cycles: "moonAge two_cycles_date = 0"
proof -
  have a: "double (5102885952) = 5102885952"
    by (rule double_at[where e = "32"]) (simp_all add: pow2_def rne_def Let_def)
  have b: "double (2953059 / 50000) = 8312122132501931 / 140737488355328"
    by (rule double_at[where e = "5"]) (simp_all add: pow2_def rne_def Let_def)
  have c: "js_rem (8312122132501931 / 140737488355328) (8312122132501931 / 281474976710656) = 0"
    by (simp add: js_rem_def js_trunc_def)
  have d: "double (8312122132501931 / 281474976710656) = 8312122132501931 / 281474976710656"
    by (rule double_at[where e = "4"]) (simp_all add: pow2_def rne_def Let_def)
  have e: "js_rem (8312122132501931 / 281474976710656) (8312122132501931 / 281474976710656) = 0"
    by (simp add: js_rem_def js_trunc_def)
  have t: "real_of_int (getTime two_cycles_date) - real_of_int ref_getTime = 5102885952"
    by (simp add: two_cycles_date_def ref_getTime_def)
  have q: "(5102885952 :: real) / (1000 * 60 * 60 * 24) = 2953059 / 50000" by simp
  have p: "(0 :: real) + 8312122132501931 / 281474976710656 = 8312122132501931 / 281474976710656" by simp
  show ?thesis
    unfolding moonAge_def Let_def LUNAR_CYCLE_value t a q b c p d e ..
qed

lemma moonAge_three_cycles: "moonAge three_cycles_date = 8312122132501929 / 281474976710656"
proof -
  have a: "double (7654328928) = 7654328928"
    by (rule double_at[where e = "32"]) (simp_all add: pow2_def rne_def Let_def)
  have b: "double (8859177 / 100000) = 97407681240257 / 1099511627776"
    by (rule double_at[where e = "6"]) (simp_all add: pow2_def rne_def Let_def)
  have c: "js_rem (97407681240257 / 1099511627776) (8312122132501931 / 281474976710656) = 4156061066250965 / 140737488355328"
    by (simp add: js_rem_def js_trunc_def)
  have d: "double (16624244265003861 / 281474976710656) = 4156061066250965 / 70368744177664"
    by (rule double_at[where e = "5"]) (simp_all add: pow2_def rne_def Let_def)
  have e: "js_rem (4156061066250965 / 70368744177664) (8312122132501931 / 281474976710656) = 8312122132501929 / 281474976710656"
    by (simp add: js_rem_def js_trunc_def)
  have t: "real_of_int (getTime three_cycles_date) - real_of_int ref_getTime = 7654328928"
    by (simp add: three_cycles_date_def ref_getTime_def)
  have q: "(7654328928 :: real) / (1000 * 60 * 60 * 24) = 8859177 / 100000" by simp
  have p: "(4156061066250965 / 140737488355328 :: real) + 8312122132501931 / 281474976710656 = 16624244265003861 / 281474976710656" by simp
  show ?thesis
    unfolding moonAge_def Let_def LUNAR_CYCLE_value t a q b c p d e ..
qed


lemma moonAge_waning: "moonAge waning_date = 6234670734141029 / 281474976710656"
proof -
  have a: "double (1913760000) = 1913760000"
    by (rule double_at[where e = "30"]) (simp_all add: pow2_def rne_def Let_def)
  have b: "double (443 / 20) = 3117335367070515 / 140737488355328"
    by (rule double_at[where e = "4"]) (simp_all add: pow2_def rne_def Let_def)
  have c: "js_rem (3117335367070515 / 140737488355328) (8312122132501931 / 281474976710656) = 3117335367070515 / 140737488355328"
    by (simp add: js_rem_def js_trunc_def)
  have d: "double (14546792866642961 / 281474976710656) = 909174554165185 / 17592186044416"
    by (rule double_at[where e = "5"]) (simp_all add: pow2_def rne_def Let_def)
  have e: "js_rem (909174554165185 / 17592186044416) (8312122132501931 / 281474976710656) = 6234670734141029 / 281474976710656"
    by (simp add: js_rem_def js_trunc_def)
  have t: "real_of_int (getTime waning_date) - real_of_int ref_getTime = 1913760000"
    by (simp add: waning_date_def ref_getTime_def)
  have q: "(1913760000 :: real) / (1000 * 60 * 60 * 24) = 443 / 20" by simp
  have p: "(3117335367070515 / 140737488355328 :: real) + 8312122132501931 / 281474976710656 = 14546792866642961 / 281474976710656" by simp
  show ?thesis
    unfolding moonAge_def Let_def LUNAR_CYCLE_value t a q b c p d e ..
qed

lemma moonAge_waning_next: "moonAge waning_next_date = 6234670734141031 / 281474976710656"
proof -
  have a: "double (4465202976) = 4465202976"
    by (rule double_at[where e = "32"]) (simp_all add: pow2_def rne_def Let_def)
  have b: "double (5168059 / 100000) = 7273396433321481 / 140737488355328"
    by (rule double_at[where e = "5"]) (simp_all add: pow2_def rne_def Let_def)
  have c: "js_rem (7273396433321481 / 140737488355328) (8312122132501931 / 281474976710656) = 6234670734141031 / 281474976710656"
    by (simp add: js_rem_def js_trunc_def)
  have d: "double (7273396433321481 / 140737488355328) = 7273396433321481 / 140737488355328"
    by (rule double_at[where e = "5"]) (simp_all add: pow2_def rne_def Let_def)
  have e: "js_rem (7273396433321481 / 140737488355328) (8312122132501931 / 281474976710656) = 6234670734141031 / 281474976710656"
    by (simp add: js_rem_def js_trunc_def)
  have t: "real_of_int (getTime waning_next_date) - real_of_int ref_getTime = 4465202976"
    by (simp add: waning_next_date_def ref_getTime_def)
  have q: "(4465202976 :: real) / (1000 * 60 * 60 * 24) = 5168059 / 100000" by simp
  have p: "(6234670734141031 / 281474976710656 :: real) + 8312122132501931 / 281474976710656 = 7273396433321481 / 140737488355328" by simp
  show ?thesis
    unfolding moonAge_def Let_def LUNAR_CYCLE_value t a q b c p d e ..
qed

text \<open>The two functions that are never called work on the same age.\<close>

lemma unused_functions_age:
  "getMoonPhaseAngle d = double (double (moonAge d / LUNAR_CYCLE) * double pi) * 2"
  "getMoonPhaseIndex d = js_rem (of_int (Math_round (double (moonAge d / LUNAR_CYCLE) * 8))) 8"
  by (simp_all add: getMoonPhaseAngle_def getMoonPhaseIndex_def moonAge_def Let_def)

lemma js_rem_small:
  assumes "0 \<le> y" and "y < L"
  shows "js_rem y L = y"
proof -
  have "0 \<le> y / L" and "y / L < 1" using assms by simp_all
  then have "\<lfloor>y / L\<rfloor> = 0" by linarith
  then show ?thesis using \<open>0 \<le> y / L\<close> by (simp add: js_rem_def js_trunc_def)
qed

lemma moonAge_range:
  "0 \<le> moonAge d" "moonAge d < LUNAR_CYCLE" "moonAge d < 29.53059"
proof -
  define days where "days = double (double (of_int (getTime d) - of_int ref_getTime)
                           / (1000 * 60 * 60 * 24))"
  define s where "s = js_rem days LUNAR_CYCLE + LUNAR_CYCLE"
  define y where "y = double s"
  have age: "moonAge d = js_rem y LUNAR_CYCLE"
    unfolding moonAge_def Let_def y_def s_def days_def ..
  have L: "0 < LUNAR_CYCLE" by (simp add: LUNAR_CYCLE_value)
  have "\<bar>js_rem days LUNAR_CYCLE\<bar> < LUNAR_CYCLE" using L by (rule js_rem_abs_less)
  then have s0: "0 \<le> s" unfolding s_def by linarith
  have y0: "0 \<le> y" unfolding y_def using s0 by (rule double_nonneg)
  show nonneg: "0 \<le> moonAge d" unfolding age using L y0 by (rule js_rem_nonneg)
  have "\<bar>js_rem y LUNAR_CYCLE\<bar> < LUNAR_CYCLE" using L by (rule js_rem_abs_less)
  then show less: "moonAge d < LUNAR_CYCLE" unfolding age by linarith
  show "moonAge d < 29.53059"
  proof (cases "s < 16")
    case True
    have "s < pow2 4" using True by (simp add: pow2_def)
    then have "y \<le> pow2 4" unfolding y_def using s0 by (intro double_upper)
    then have y16: "y \<le> 16" by (simp add: pow2_def)
    then have "y < LUNAR_CYCLE" by (simp add: LUNAR_CYCLE_value)
    then have "js_rem y LUNAR_CYCLE = y" using y0 by (intro js_rem_small)
    then show ?thesis unfolding age using y16 by simp
  next
    case False
    then have "pow2 4 \<le> \<bar>s\<bar>" by (simp add: pow2_def)
    then obtain n :: int where n: "y = of_int n * pow2 (4 - 52)"
      unfolding y_def using double_grid by blast
    obtain k :: int where k: "js_rem y LUNAR_CYCLE = y - LUNAR_CYCLE * of_int k"
      using js_rem_int_shift by blast
    have "moonAge d = y - LUNAR_CYCLE * of_int k" using age k by simp
    also have "\<dots> = of_int n * pow2 (4 - 52) - 8312122132501931 / 281474976710656 * of_int k"
      by (simp only: n LUNAR_CYCLE_value)
    also have "\<dots> = of_int (n - 8312122132501931 * k) / 281474976710656"
      by (simp add: pow2_def field_simps)
    finally have a: "moonAge d = of_int (n - 8312122132501931 * k) / 281474976710656" .
    have "of_int (n - 8312122132501931 * k) / 281474976710656
        < (8312122132501931 :: real) / 281474976710656"
      using less unfolding a LUNAR_CYCLE_value .
    then have "real_of_int (n - 8312122132501931 * k) < 8312122132501931"
      by (simp add: divide_less_cancel)
    then have "n - 8312122132501931 * k < 8312122132501931" by linarith
    then have "n - 8312122132501931 * k \<le> 8312122132501930" by simp
    then have "real_of_int (n - 8312122132501931 * k) \<le> 8312122132501930" by linarith
    then have "moonAge d \<le> 8312122132501930 / 281474976710656"
      unfolding a by (simp add: divide_le_cancel)
    then show ?thesis by simp
  qed
qed

text \<open>The formula of exact arithmetic is periodic.\<close>

lemma spec_moonAge_range: "0 \<le> spec_moonAge ms" "spec_moonAge ms < 29.53059"
  unfolding spec_moonAge_def using normalize_mod_range[of "29.53059"] by simp_all

lemma spec_moonAge_periodic: "spec_moonAge (ms + 2551442976) = spec_moonAge ms"
proof -
  let ?x = "(real_of_int ms - real_of_int ref_getTime) / 86400000"
  have e: "(real_of_int (ms + 2551442976) - real_of_int ref_getTime) / 86400000
        = ?x + 29.53059" by simp
  have "spec_moonAge (ms + 2551442976) = normalize_mod (?x + 29.53059) 29.53059"
    unfolding spec_moonAge_def by (simp only: e)
  also have "\<dots> = normalize_mod ?x 29.53059"
    by (rule normalize_mod_add_period) simp
  finally show ?thesis unfolding spec_moonAge_def .
qed

text \<open>
  The rounded age and the formula of exact arithmetic agree up to whole periods and an
  error that grows with the number of days from the reference instant.
\<close>

lemma moonAge_tolerance:
  "\<exists>n::int. \<bar>moonAge d - spec_moonAge (getTime d) - 29.53059 * of_int n\<bar>
      \<le> (\<bar>(of_int (getTime d) - of_int ref_getTime) / 86400000\<bar> + 30) / 2 ^ 50"
proof -
  define eps :: real where "eps = 1 / 2 ^ 53"
  define Dl :: real where "Dl = of_int (getTime d) - of_int ref_getTime"
  define x where "x = Dl / 86400000"
  define d0 where "d0 = double Dl"
  define q where "q = d0 / 86400000"
  define days where "days = double q"
  define r1 where "r1 = js_rem days LUNAR_CYCLE"
  define s where "s = r1 + LUNAR_CYCLE"
  define y where "y = double s"
  have eps: "0 < eps" "eps \<le> 1" unfolding eps_def by simp_all
  have L: "0 < LUNAR_CYCLE" "LUNAR_CYCLE \<le> 30" by (simp_all add: LUNAR_CYCLE_value)
  have age: "moonAge d = js_rem y LUNAR_CYCLE"
    unfolding moonAge_def Let_def y_def s_def r1_def days_def q_def d0_def Dl_def by simp
  have spec: "spec_moonAge (getTime d) = normalize_mod x 29.53059"
    unfolding spec_moonAge_def x_def Dl_def ..
  \<comment> \<open>the rounded day count\<close>
  have e0: "\<bar>d0 - Dl\<bar> \<le> \<bar>Dl\<bar> * eps"
    unfolding d0_def eps_def using double_error[of Dl] by simp
  have qx: "\<bar>q - x\<bar> \<le> \<bar>x\<bar> * eps"
  proof -
    have "q - x = (d0 - Dl) / 86400000" unfolding q_def x_def by (simp add: diff_divide_distrib)
    then have "\<bar>q - x\<bar> = \<bar>(d0 - Dl) / 86400000\<bar>" by (simp only:)
    also have "\<dots> = \<bar>d0 - Dl\<bar> / 86400000" by (simp only: abs_divide abs_numeral)
    also have "\<dots> \<le> (\<bar>Dl\<bar> * eps) / 86400000" using e0 by (intro divide_right_mono) simp_all
    also have "\<dots> = \<bar>x\<bar> * eps" unfolding x_def by (simp add: abs_divide)
    finally show ?thesis .
  qed
  have "\<bar>x\<bar> * eps \<le> \<bar>x\<bar> * 1" using eps by (intro mult_left_mono) simp_all
  then have q2: "\<bar>q\<bar> \<le> 2 * \<bar>x\<bar>" using qx by linarith
  have e1: "\<bar>days - q\<bar> \<le> \<bar>q\<bar> * eps"
    unfolding days_def eps_def using double_error[of q] by simp
  have "\<bar>q\<bar> * eps \<le> (2 * \<bar>x\<bar>) * eps" using q2 eps by (intro mult_right_mono) simp_all
  then have dx: "\<bar>days - x\<bar> \<le> 3 * \<bar>x\<bar> * eps" using e1 qx by linarith
  have "3 * \<bar>x\<bar> * eps \<le> 3 * \<bar>x\<bar> * 1" using eps by (intro mult_left_mono) simp_all
  then have days4: "\<bar>days\<bar> \<le> 4 * \<bar>x\<bar>" using dx by linarith
  \<comment> \<open>the rounded sum\<close>
  have r1b: "\<bar>r1\<bar> < LUNAR_CYCLE" unfolding r1_def using L(1) by (rule js_rem_abs_less)
  then have sb: "0 \<le> s" "s \<le> 2 * LUNAR_CYCLE" unfolding s_def by linarith+
  have "\<bar>y - s\<bar> \<le> \<bar>s\<bar> * eps"
    unfolding y_def eps_def using double_error[of s] by simp
  moreover have "\<bar>s\<bar> * eps \<le> 60 * eps" using sb L eps by (intro mult_right_mono) simp_all
  ultimately have e2: "\<bar>y - s\<bar> \<le> 60 * eps" by linarith
  \<comment> \<open>whole periods\<close>
  obtain k1 :: int where k1: "r1 = days - LUNAR_CYCLE * of_int k1"
    unfolding r1_def using js_rem_int_shift by blast
  obtain k2 :: int where k2: "js_rem y LUNAR_CYCLE = y - LUNAR_CYCLE * of_int k2"
    using js_rem_int_shift by blast
  define k0 where "k0 = \<lfloor>x / 29.53059\<rfloor>"
  have sp: "normalize_mod x 29.53059 = x - 29.53059 * of_int k0"
    unfolding normalize_mod_def k0_def ..
  define j where "j = 1 - k1 - k2"
  have a1: "moonAge d = days + (y - s) + LUNAR_CYCLE * of_int j"
    unfolding age k2 j_def using k1 s_def by (simp add: algebra_simps)
  have ab: "\<bar>moonAge d\<bar> < LUNAR_CYCLE" unfolding age using L(1) by (rule js_rem_abs_less)
  have "LUNAR_CYCLE * of_int j = moonAge d - days - (y - s)" using a1 by simp
  then have "\<bar>LUNAR_CYCLE * of_int j\<bar> \<le> \<bar>moonAge d\<bar> + \<bar>days\<bar> + \<bar>y - s\<bar>" by linarith
  moreover have "60 * eps \<le> 60" using eps by simp
  ultimately have "\<bar>LUNAR_CYCLE * of_int j\<bar> \<le> 4 * \<bar>x\<bar> + 90" using ab days4 e2 L by linarith
  then have Lj: "LUNAR_CYCLE * \<bar>real_of_int j\<bar> \<le> 4 * \<bar>x\<bar> + 90"
    using L(1) by (simp add: abs_mult)
  \<comment> \<open>the rounded period\<close>
  have "\<bar>LUNAR_CYCLE - 29.53059\<bar> \<le> \<bar>29.53059\<bar> / 2 ^ 53"
    unfolding LUNAR_CYCLE_def by (rule double_error)
  moreover have "(29.53059 :: real) \<le> LUNAR_CYCLE" by (simp add: LUNAR_CYCLE_value)
  ultimately have "\<bar>LUNAR_CYCLE - 29.53059\<bar> \<le> LUNAR_CYCLE * eps"
    unfolding eps_def by (simp add: divide_right_mono order_trans)
  then have "\<bar>LUNAR_CYCLE - 29.53059\<bar> * \<bar>real_of_int j\<bar> \<le> (LUNAR_CYCLE * eps) * \<bar>real_of_int j\<bar>"
    by (intro mult_right_mono) simp_all
  also have "\<dots> = (LUNAR_CYCLE * \<bar>real_of_int j\<bar>) * eps" by simp
  also have "\<dots> \<le> (4 * \<bar>x\<bar> + 90) * eps" using Lj eps by (intro mult_right_mono) simp_all
  finally have Le: "\<bar>(LUNAR_CYCLE - 29.53059) * of_int j\<bar> \<le> (4 * \<bar>x\<bar> + 90) * eps"
    by (simp add: abs_mult)
  \<comment> \<open>together\<close>
  have "moonAge d - spec_moonAge (getTime d) - 29.53059 * of_int (j + k0)
      = (days - x) + (y - s) + (LUNAR_CYCLE - 29.53059) * of_int j"
    unfolding a1 spec sp by (simp add: algebra_simps)
  then have "\<bar>moonAge d - spec_moonAge (getTime d) - 29.53059 * of_int (j + k0)\<bar>
      \<le> 3 * \<bar>x\<bar> * eps + 60 * eps + (4 * \<bar>x\<bar> + 90) * eps"
    using dx e2 Le by linarith
  also have "\<dots> = (7 * \<bar>x\<bar> + 150) * eps" by (simp add: algebra_simps)
  also have "\<dots> \<le> (\<bar>x\<bar> + 30) / 2 ^ 50" unfolding eps_def by simp
  finally show ?thesis unfolding x_def Dl_def by blast
qed


text \<open>
  Claim C7, as the source has it. For every instant, also one before the reference epoch,
  the moon age lies in \<open>[0, 29.53059)\<close>: the remainder is shifted by the period and taken
  again. In exact arithmetic the age 29.53059 days (2551442976 milliseconds) later is the
  same. The source computes in doubles: its age differs from the exact one by rounding
  only, up to whole periods, and so do its ages at two instants one period apart.
\<close>

theorem moonAge_range_period_rounding:
  "0 \<le> moonAge d \<and> moonAge d < 29.53059
   \<and> 0 \<le> spec_moonAge ms \<and> spec_moonAge ms < 29.53059
   \<and> (2551442976 :: real) / 86400000 = 29.53059
   \<and> spec_moonAge (ms + 2551442976) = spec_moonAge ms
   \<and> (\<exists>n::int. \<bar>moonAge d - spec_moonAge (getTime d) - 29.53059 * of_int n\<bar>
          \<le> (\<bar>(of_int (getTime d) - of_int ref_getTime) / 86400000\<bar> + 30) / 2 ^ 50)
   \<and> (\<exists>n::int. \<bar>moonAge (d\<lparr>getTime := getTime d + 2551442976\<rparr>) - moonAge d
                    - 29.53059 * of_int n\<bar>
          \<le> (\<bar>(of_int (getTime d) - of_int ref_getTime) / 86400000\<bar> + 45) / 2 ^ 49)"
proof -
  let ?x = "(real_of_int (getTime d) - real_of_int ref_getTime) / 86400000"
  let ?d' = "d\<lparr>getTime := getTime d + 2551442976\<rparr>"
  have h: "(a + 60) / 2 ^ 50 + (a + 30) / 2 ^ 50 = (a + 45) / 2 ^ 49" for a :: real
    by (simp add: field_simps)
  obtain n :: int where n: "\<bar>moonAge d - spec_moonAge (getTime d) - 29.53059 * of_int n\<bar>
      \<le> (\<bar>?x\<bar> + 30) / 2 ^ 50"
    using moonAge_tolerance[of d] by blast
  have g: "getTime ?d' = getTime d + 2551442976" by simp
  have xe: "(real_of_int (getTime d + 2551442976) - real_of_int ref_getTime) / 86400000
      = ?x + 29.53059"
    by simp
  have pe: "spec_moonAge (getTime d + 2551442976) = spec_moonAge (getTime d)"
    by (rule spec_moonAge_periodic)
  have "\<exists>m::int. \<bar>moonAge ?d' - spec_moonAge (getTime ?d') - 29.53059 * of_int m\<bar>
      \<le> (\<bar>(real_of_int (getTime ?d') - real_of_int ref_getTime) / 86400000\<bar> + 30) / 2 ^ 50"
    by (rule moonAge_tolerance)
  then have "\<exists>m::int. \<bar>moonAge ?d' - spec_moonAge (getTime d) - 29.53059 * of_int m\<bar>
      \<le> (\<bar>?x + 29.53059\<bar> + 30) / 2 ^ 50"
    by (simp only: g xe pe)
  then obtain n' :: int where
    n': "\<bar>moonAge ?d' - spec_moonAge (getTime d) - 29.53059 * of_int n'\<bar>
      \<le> (\<bar>?x + 29.53059\<bar> + 30) / 2 ^ 50"
    by blast
  have "\<bar>?x + 29.53059\<bar> \<le> \<bar>?x\<bar> + \<bar>29.53059 :: real\<bar>" by (rule abs_triangle_ineq)
  also have "\<bar>29.53059 :: real\<bar> \<le> 30" by simp
  finally have "\<bar>?x + 29.53059\<bar> \<le> \<bar>?x\<bar> + 30" by simp
  then have "(\<bar>?x + 29.53059\<bar> + 30) / 2 ^ 50 \<le> (\<bar>?x\<bar> + 60) / 2 ^ 50"
    by (intro divide_right_mono) simp_all
  then have b: "\<bar>moonAge ?d' - spec_moonAge (getTime d) - 29.53059 * of_int n'\<bar>
      \<le> (\<bar>?x\<bar> + 60) / 2 ^ 50"
    using n' by linarith
  have "moonAge ?d' - moonAge d - 29.53059 * of_int (n' - n)
      = (moonAge ?d' - spec_moonAge (getTime d) - 29.53059 * of_int n')
        - (moonAge d - spec_moonAge (getTime d) - 29.53059 * of_int n)"
    by (simp only: of_int_diff right_diff_distrib)
  then have "\<bar>moonAge ?d' - moonAge d - 29.53059 * of_int (n' - n)\<bar>
      \<le> (\<bar>?x\<bar> + 60) / 2 ^ 50 + (\<bar>?x\<bar> + 30) / 2 ^ 50"
    using n b by linarith
  also have "\<dots> = (\<bar>?x\<bar> + 45) / 2 ^ 49" by (rule h)
  finally have p: "\<exists>m::int. \<bar>moonAge ?d' - moonAge d - 29.53059 * of_int m\<bar>
      \<le> (\<bar>?x\<bar> + 45) / 2 ^ 49"
    by blast
  have q: "(2551442976 :: real) / 86400000 = 29.53059" by simp
  have t: "\<exists>m::int. \<bar>moonAge d - spec_moonAge (getTime d) - 29.53059 * of_int m\<bar>
      \<le> (\<bar>?x\<bar> + 30) / 2 ^ 50"
    using n by blast
  show ?thesis
    using moonAge_range(1)[of d] moonAge_range(3)[of d] spec_moonAge_range[of ms]
      spec_moonAge_periodic[of ms] q t p
    by (intro conjI)
qed

text \<open>
  The claim as stated has the age one period later equal to the age. Two and three
  periods after the reference instant the ages of the source are 0 and, a rounding
  below the period, 29.530589999999993. And 22.15 days after the reference instant the
  age is 22.149999999999995, one period later 22.150000000000002: the first is below the
  threshold 22.15 and selects image 5, the second is not and selects image 6.
\<close>

theorem moonAge_period_counterexample:
  "getTime three_cycles_date = getTime two_cycles_date + 2551442976
   \<and> moonAge two_cycles_date = 0
   \<and> moonAge three_cycles_date = 8312122132501929 / 281474976710656
   \<and> getTime waning_next_date = getTime waning_date + 2551442976
   \<and> moonAge waning_date = 6234670734141029 / 281474976710656
   \<and> moonAge waning_next_date = 6234670734141031 / 281474976710656
   \<and> getMoonPhaseImage (moonAge waning_date) = 5
   \<and> getMoonPhaseImage (moonAge waning_next_date) = 6"
proof -
  have a: "getMoonPhaseImage (moonAge waning_date) = 5"
    unfolding moonAge_waning getMoonPhaseImage_def threshold_values by simp
  have b: "getMoonPhaseImage (moonAge waning_next_date) = 6"
    unfolding moonAge_waning_next getMoonPhaseImage_def threshold_values by simp
  have c: "getTime three_cycles_date = getTime two_cycles_date + 2551442976"
    by (simp add: two_cycles_date_def three_cycles_date_def)
  have d: "getTime waning_next_date = getTime waning_date + 2551442976"
    by (simp add: waning_date_def waning_next_date_def)
  show ?thesis
    using c moonAge_two_cycles moonAge_three_cycles d moonAge_waning moonAge_waning_next a b
    by (intro conjI)
qed

section \<open>The clock reading\<close>

lemma js_rem_nonpos:
  assumes "0 < L" "x \<le> 0"
  shows "js_rem x L \<le> 0"
proof -
  have "js_rem (- x) L = - js_rem x L"
    unfolding js_rem_def js_trunc_def using assms
    by (auto simp add: ceiling_minus floor_minus algebra_simps)
  moreover have "0 \<le> js_rem (- x) L" using assms by (intro js_rem_nonneg) simp_all
  ultimately show ?thesis by simp
qed

lemma js_rem_within:
  assumes "\<bar>x\<bar> < L"
  shows "js_rem x L = x"
proof (cases "0 \<le> x")
  case True
  then show ?thesis using assms by (intro js_rem_small) simp_all
next
  case False
  then have n: "x < 0" and l: "0 < L" using assms by linarith+
  have "- 1 < x / L" using assms n l by (simp add: field_simps)
  moreover have "x / L < 0" using n l by (simp add: field_simps)
  ultimately have "\<lceil>x / L\<rceil> = 0" by linarith
  then show ?thesis using \<open>x / L < 0\<close> by (simp add: js_rem_def js_trunc_def)
qed




text \<open>No operation of the three computations divides or reduces by zero.\<close>

lemma moonAge_num_finite: "moonAge_num d = Some (moonAge d)"
proof -
  have "LUNAR_CYCLE \<noteq> 0" unfolding LUNAR_CYCLE_value by simp
  then show ?thesis
    by (simp add: moonAge_num_def moonAge_def num_lift_def num_div_def num_rem_def Let_def)
qed

lemma drawWatch_g_num_finite: "drawWatch_g_num d k = Some (drawWatch_g d k)"
  by (simp add: drawWatch_g_num_def drawWatch_g_def drawWatch_m_def drawWatch_s_def
      num_lift_def num_div_def num_rem_def Let_def)

lemma getSiderealAngle_num_finite: "getSiderealAngle_num d = Some (getSiderealAngle d)"
  by (simp add: getSiderealAngle_num_def getSiderealAngle_def num_lift_def num_div_def
      num_rem_def Let_def)

text \<open>
  Claim C5, as the source has it. For every timestamp and every integer GMT offset the
  three derived values are numbers: no operation that computes them yields \<open>NaN\<close> or an
  infinity. The moon age lies in \<open>[0, 29.53059)\<close> and the sidereal angle in
  \<open>[0, 2 pi)\<close>. The GMT hour \<open>g\<close> is a single truncated remainder of the sum hours +
  offset + minutes/60: it lies in \<open>(-24, 24)\<close>, differs from the sum by a multiple of 24,
  is not negative when the sum is not negative, is not positive when the sum is not
  positive, and is the sum itself when the sum lies in \<open>(-24, 24)\<close>; so it is negative
  for every sum in \<open>(-24, 0)\<close>.
\<close>

theorem derived_values_finite_ranges:
  "moonAge_num d = Some (moonAge d)
   \<and> drawWatch_g_num d k = Some (drawWatch_g d k)
   \<and> getSiderealAngle_num d = Some (getSiderealAngle d)
   \<and> 0 \<le> moonAge d \<and> moonAge d < 29.53059
   \<and> - 24 < drawWatch_g d k \<and> drawWatch_g d k < 24
   \<and> (\<exists>n::int. drawWatch_g d k
          = of_int (getHours d) + of_int k + drawWatch_m d / 60 - 24 * of_int n)
   \<and> (0 \<le> of_int (getHours d) + of_int k + drawWatch_m d / 60 \<longrightarrow> 0 \<le> drawWatch_g d k)
   \<and> (of_int (getHours d) + of_int k + drawWatch_m d / 60 \<le> 0 \<longrightarrow> drawWatch_g d k \<le> 0)
   \<and> (\<bar>of_int (getHours d) + of_int k + drawWatch_m d / 60\<bar> < 24
        \<longrightarrow> drawWatch_g d k = of_int (getHours d) + of_int k + drawWatch_m d / 60)
   \<and> (- 24 < of_int (getHours d) + of_int k + drawWatch_m d / 60
        \<and> of_int (getHours d) + of_int k + drawWatch_m d / 60 < 0 \<longrightarrow> drawWatch_g d k < 0)
   \<and> 0 \<le> getSiderealAngle d \<and> getSiderealAngle d < 2 * pi"
proof -
  let ?x = "real_of_int (getHours d) + real_of_int k + drawWatch_m d / 60"
  have g: "drawWatch_g d k = js_rem ?x 24" by (simp add: drawWatch_g_def)
  have "\<bar>js_rem ?x 24\<bar> < 24" by (rule js_rem_abs_less) simp
  then have b: "- 24 < drawWatch_g d k" "drawWatch_g d k < 24" unfolding g by linarith+
  have c: "\<exists>n::int. drawWatch_g d k = ?x - 24 * of_int n"
    unfolding g by (rule js_rem_int_shift)
  have p: "0 \<le> ?x \<longrightarrow> 0 \<le> drawWatch_g d k"
    unfolding g using js_rem_nonneg[of 24 ?x] by simp
  have q: "?x \<le> 0 \<longrightarrow> drawWatch_g d k \<le> 0"
    unfolding g using js_rem_nonpos[of 24 ?x] by simp
  have w: "\<bar>?x\<bar> < 24 \<longrightarrow> drawWatch_g d k = ?x"
    unfolding g using js_rem_within[of ?x 24] by simp
  have v: "- 24 < ?x \<and> ?x < 0 \<longrightarrow> drawWatch_g d k < 0"
    unfolding g using js_rem_within[of ?x 24] by simp
  show ?thesis
    using moonAge_num_finite[of d] drawWatch_g_num_finite[of d k]
      getSiderealAngle_num_finite[of d] moonAge_range(1)[of d] moonAge_range(3)[of d]
      b c p q w v getSiderealAngle_range[of d]
    by (intro conjI)
qed

theorem derived_values_finite_ranges_witness:
  "0 \<le> real_of_int (getHours epoch_date) + real_of_int 30 + drawWatch_m epoch_date / 60
   \<and> 0 \<le> drawWatch_g epoch_date 30
   \<and> real_of_int (getHours epoch_date) + real_of_int (- 30) + drawWatch_m epoch_date / 60 \<le> 0
   \<and> drawWatch_g epoch_date (- 30) \<le> 0
   \<and> - 24 < drawWatch_g epoch_date (- 30)
   \<and> \<bar>real_of_int (getHours epoch_date) + real_of_int (- 5) + drawWatch_m epoch_date / 60\<bar> < 24
   \<and> - 24 < real_of_int (getHours epoch_date) + real_of_int (- 5) + drawWatch_m epoch_date / 60
   \<and> real_of_int (getHours epoch_date) + real_of_int (- 5) + drawWatch_m epoch_date / 60 < 0
   \<and> drawWatch_g epoch_date (- 5) < 0"
  using derived_values_finite_ranges[of epoch_date 30]
    derived_values_finite_ranges[of epoch_date "- 30"]
    derived_values_finite_ranges[of epoch_date "- 5"]
  by (simp add: drawWatch_m_def drawWatch_s_def epoch_date_def)

text \<open>
  The claim as stated puts \<open>g\<close> in \<open>[0, 24)\<close>. At midnight with offset \<open>-1\<close> it is
  \<open>-1\<close>.
\<close>

theorem gmt_hour_negative_counterexample:
  "drawWatch_g epoch_date (- 1) = - 1"
  by (simp add: drawWatch_g_def drawWatch_m_def drawWatch_s_def epoch_date_def js_rem_def
      js_trunc_def ceiling_minus)











section \<open>The moon phase index\<close>

lemma getMoonPhaseImage_spec: "getMoonPhaseImage a = spec_moonPhaseIndex a"
  by (simp add: getMoonPhaseImage_def spec_moonPhaseIndex_def phase_thresholds_def)

lemma getMoonPhaseImage_less: "getMoonPhaseImage a < 8"
  by (simp add: getMoonPhaseImage_def)

lemma drawn_images_append: "drawn_images (xs @ ys) = drawn_images xs @ drawn_images ys"
  by (simp add: drawn_images_def)

lemma drawMoon_draws:
  assumes "moonImagesLoaded as"
    and "array_get (moonPhaseImages as) (getMoonPhaseImage (moonAge d)) = Some img"
    and "complete img"
  shows "drawn_images (drawMoon as d) = [img]"
proof -
  have "moonPhaseImages as \<noteq> []" using assms(2) by (auto simp: array_get_def)
  then show ?thesis using assms
    by (simp add: drawMoon_def Let_def drawn_images_def)
qed

text \<open>The thresholds in increasing order, each within \<open>10 ^ - 14\<close> of its literal.\<close>

lemma thresholds_ordered:
  "0 < double 1.84" "double 1.84 < double 7.38" "double 7.38 < double 9.23"
  "double 9.23 < double 14.77" "double 14.77 < double 16.61" "double 16.61 < double 22.15"
  "double 22.15 < double 23.99" "double 23.99 < LUNAR_CYCLE"
  unfolding threshold_values LUNAR_CYCLE_value by simp_all

lemma thresholds_near:
  "\<bar>double 1.84 - 1.84\<bar> < 1 / 10 ^ 14" "\<bar>double 7.38 - 7.38\<bar> < 1 / 10 ^ 14"
  "\<bar>double 9.23 - 9.23\<bar> < 1 / 10 ^ 14" "\<bar>double 14.77 - 14.77\<bar> < 1 / 10 ^ 14"
  "\<bar>double 16.61 - 16.61\<bar> < 1 / 10 ^ 14" "\<bar>double 22.15 - 22.15\<bar> < 1 / 10 ^ 14"
  "\<bar>double 23.99 - 23.99\<bar> < 1 / 10 ^ 14"
  unfolding threshold_values by simp_all

lemma getMoonPhaseImage_boundaries:
  "map getMoonPhaseImage
     [0, double 1.84, double 7.38, double 9.23, double 14.77, double 16.61, double 22.15,
      double 23.99]
   = [0, 1, 2, 3, 4, 5, 6, 7]"
  unfolding getMoonPhaseImage_def threshold_values by simp

text \<open>
  Six days after the reference instant the age is 6.0000000000000036 days. The lookup
  gives 1; the even division gives \<open>Math.round(1.6254...) = 2\<close>.
\<close>

lemma getMoonPhaseImage_six_days: "getMoonPhaseImage (moonAge six_days_date) = 1"
  unfolding moonAge_six_days getMoonPhaseImage_def threshold_values by simp

lemma getMoonPhaseIndex_six_days: "getMoonPhaseIndex six_days_date = 2"
proof -
  have i: "getMoonPhaseIndex six_days_date
      = js_rem (of_int (Math_round (double (moonAge six_days_date / LUNAR_CYCLE) * 8))) 8"
    by (simp add: getMoonPhaseIndex_def moonAge_def Let_def)
  have q: "moonAge six_days_date / LUNAR_CYCLE = 1688849860263937 / 8312122132501931"
    unfolding moonAge_six_days LUNAR_CYCLE_value by simp
  have d: "double (1688849860263937 / 8312122132501931) = 7320300140084703 / 36028797018963968"
    by (rule double_at[where e = "- 3"]) (simp_all add: pow2_def rne_def Let_def)
  have r: "Math_round (7320300140084703 / 36028797018963968 * 8) = 2"
    by (simp add: Math_round_def)
  have m: "js_rem (of_int 2) 8 = 2" by (simp add: js_rem_def js_trunc_def)
  show ?thesis unfolding i q d r m ..
qed

lemma loaded_all_eval:
  "loaded_all = \<lparr>moonImagesLoaded = True,
     moonPhaseImages = map (\<lambda>file. Some \<lparr>src = ''blob:'' @ file, complete = True\<rparr>) moonPhaseFiles,
     caseImage = case_image\<rparr>"
  by (simp add: loaded_all_def frame_assets_def load_moon_images_def start_loading_def all_fetched_def
      moonPhaseFiles_def sparse_array_def array_get_def Let_def)

lemma loaded_seven_eval:
  "loaded_seven = \<lparr>moonImagesLoaded = False,
     moonPhaseImages = (map (\<lambda>file. Some \<lparr>src = ''blob:'' @ file, complete = True\<rparr>) moonPhaseFiles)[3 := None],
     caseImage = case_image\<rparr>"
  by (simp add: loaded_seven_def one_failed_def frame_assets_def load_moon_images_def start_loading_def
      all_fetched_def moonPhaseFiles_def sparse_array_def array_get_def Let_def)


text \<open>
  Claim C1. The index \<open>drawMoon\<close> selects the moon image with is the lookup by the fixed
  day thresholds, for every age in \<open>[0, 29.53059)\<close>: it agrees with the table of the
  specification. The thresholds are the JavaScript numbers 1.84, 7.38, 9.23, 14.77, 16.61,
  22.15 and 23.99, each the double within \<open>10 ^ - 14\<close> of its literal: the boundary ages
  0, 1.84, 7.38, 9.23, 14.77, 16.61, 22.15 and 23.99 give 0 to 7, and an age below a
  boundary gives the index before. \<open>drawMoon\<close> draws the image at that index of the age
  it computes. It is not the even division that \<open>getMoonPhaseIndex\<close> computes: six days
  after the reference instant the lookup gives 1 and the even division gives 2.
\<close>

theorem moon_phase_index_stepwise:
  "(0 \<le> a \<and> a < LUNAR_CYCLE \<longrightarrow>
      getMoonPhaseImage a = spec_moonPhaseIndex a \<and> getMoonPhaseImage a \<le> 7)
   \<and> map getMoonPhaseImage
        [0, double 1.84, double 7.38, double 9.23, double 14.77, double 16.61, double 22.15,
         double 23.99]
       = [0, 1, 2, 3, 4, 5, 6, 7]
   \<and> \<bar>double 1.84 - 1.84\<bar> < 1 / 10 ^ 14 \<and> \<bar>double 7.38 - 7.38\<bar> < 1 / 10 ^ 14
   \<and> \<bar>double 9.23 - 9.23\<bar> < 1 / 10 ^ 14 \<and> \<bar>double 14.77 - 14.77\<bar> < 1 / 10 ^ 14
   \<and> \<bar>double 16.61 - 16.61\<bar> < 1 / 10 ^ 14 \<and> \<bar>double 22.15 - 22.15\<bar> < 1 / 10 ^ 14
   \<and> \<bar>double 23.99 - 23.99\<bar> < 1 / 10 ^ 14
   \<and> (a < double 1.84 \<longrightarrow> getMoonPhaseImage a = 0)
   \<and> (double 1.84 \<le> a \<and> a < double 7.38 \<longrightarrow> getMoonPhaseImage a = 1)
   \<and> (double 7.38 \<le> a \<and> a < double 9.23 \<longrightarrow> getMoonPhaseImage a = 2)
   \<and> (double 9.23 \<le> a \<and> a < double 14.77 \<longrightarrow> getMoonPhaseImage a = 3)
   \<and> (double 14.77 \<le> a \<and> a < double 16.61 \<longrightarrow> getMoonPhaseImage a = 4)
   \<and> (double 16.61 \<le> a \<and> a < double 22.15 \<longrightarrow> getMoonPhaseImage a = 5)
   \<and> (double 22.15 \<le> a \<and> a < double 23.99 \<longrightarrow> getMoonPhaseImage a = 6)
   \<and> (double 23.99 \<le> a \<longrightarrow> getMoonPhaseImage a = 7)
   \<and> (moonImagesLoaded as
        \<and> array_get (moonPhaseImages as) (spec_moonPhaseIndex (moonAge d)) = Some img
        \<and> complete img \<longrightarrow> drawn_images (drawMoon as d) = [img])
   \<and> getMoonPhaseImage (moonAge six_days_date) = 1
   \<and> getMoonPhaseIndex six_days_date = 2"
proof -
  note o = thresholds_ordered
  have s: "0 \<le> a \<and> a < LUNAR_CYCLE \<longrightarrow>
      getMoonPhaseImage a = spec_moonPhaseIndex a \<and> getMoonPhaseImage a \<le> 7"
    using getMoonPhaseImage_spec[of a] getMoonPhaseImage_less[of a] by simp
  have i0: "a < double 1.84 \<longrightarrow> getMoonPhaseImage a = 0" by (simp add: getMoonPhaseImage_def)
  have i1: "double 1.84 \<le> a \<and> a < double 7.38 \<longrightarrow> getMoonPhaseImage a = 1"
    by (simp add: getMoonPhaseImage_def)
  have i2: "double 7.38 \<le> a \<and> a < double 9.23 \<longrightarrow> getMoonPhaseImage a = 2"
    using o by (simp add: getMoonPhaseImage_def)
  have i3: "double 9.23 \<le> a \<and> a < double 14.77 \<longrightarrow> getMoonPhaseImage a = 3"
    using o by (simp add: getMoonPhaseImage_def)
  have i4: "double 14.77 \<le> a \<and> a < double 16.61 \<longrightarrow> getMoonPhaseImage a = 4"
    using o by (simp add: getMoonPhaseImage_def)
  have i5: "double 16.61 \<le> a \<and> a < double 22.15 \<longrightarrow> getMoonPhaseImage a = 5"
    using o by (simp add: getMoonPhaseImage_def)
  have i6: "double 22.15 \<le> a \<and> a < double 23.99 \<longrightarrow> getMoonPhaseImage a = 6"
    using o by (simp add: getMoonPhaseImage_def)
  have i7: "double 23.99 \<le> a \<longrightarrow> getMoonPhaseImage a = 7"
    using o by (simp add: getMoonPhaseImage_def)
  have dr: "moonImagesLoaded as
        \<and> array_get (moonPhaseImages as) (spec_moonPhaseIndex (moonAge d)) = Some img
        \<and> complete img \<longrightarrow> drawn_images (drawMoon as d) = [img]"
    using drawMoon_draws[of as d img] by (simp add: getMoonPhaseImage_spec)
  show ?thesis
    using s getMoonPhaseImage_boundaries thresholds_near i0 i1 i2 i3 i4 i5 i6 i7 dr
      getMoonPhaseImage_six_days getMoonPhaseIndex_six_days
    by (intro conjI)
qed

theorem moon_phase_index_stepwise_witness:
  "(0::real) \<le> 7.37 \<and> (7.37::real) < LUNAR_CYCLE
   \<and> double 1.84 \<le> 7.37 \<and> 7.37 < double 7.38
   \<and> getMoonPhaseImage 7.37 = spec_moonPhaseIndex 7.37
   \<and> getMoonPhaseImage 7.37 = 1
   \<and> moonImagesLoaded loaded_all
   \<and> array_get (moonPhaseImages loaded_all) (spec_moonPhaseIndex (moonAge epoch_date))
       = Some \<lparr>src = ''blob:New_Moon.svg'', complete = True\<rparr>
   \<and> drawn_images (drawMoon loaded_all epoch_date)
       = [\<lparr>src = ''blob:New_Moon.svg'', complete = True\<rparr>]"
proof -
  have h1: "(0::real) \<le> 7.37 \<and> (7.37::real) < LUNAR_CYCLE"
    unfolding LUNAR_CYCLE_value by simp
  have h2: "double 1.84 \<le> 7.37 \<and> 7.37 < double 7.38"
    unfolding threshold_values by simp
  have h3: "moonImagesLoaded loaded_all" by (simp add: loaded_all_eval)
  have "spec_moonPhaseIndex (moonAge epoch_date) = 0"
    unfolding moonAge_epoch spec_moonPhaseIndex_def phase_thresholds_def threshold_values
    by simp
  then have h4: "array_get (moonPhaseImages loaded_all) (spec_moonPhaseIndex (moonAge epoch_date))
       = Some \<lparr>src = ''blob:New_Moon.svg'', complete = True\<rparr>"
    by (simp add: loaded_all_eval array_get_def moonPhaseFiles_def)
  show ?thesis
    using moon_phase_index_stepwise[of "7.37" loaded_all epoch_date
        "\<lparr>src = ''blob:New_Moon.svg'', complete = True\<rparr>"] h1 h2 h3 h4
    by simp
qed

section \<open>The loader\<close>

text \<open>
  Each created image fires its \<open>load\<close> or \<open>error\<close> event once, so a sequence of events
  has no event twice. Along such a sequence \<open>loadedCount\<close> counts the images that have
  loaded, and the flag is set only when it has reached 8: by then every one of the eight
  handles is present and complete.
\<close>

lemma sparse_array_prefix: "\<exists>ys. xs = sparse_array xs @ ys"
proof -
  have "rev xs = takeWhile (\<lambda>x. x = None) (rev xs) @ dropWhile (\<lambda>x. x = None) (rev xs)"
    by simp
  then have "rev (rev xs) = rev (takeWhile (\<lambda>x. x = None) (rev xs) @ dropWhile (\<lambda>x. x = None) (rev xs))"
    by (rule arg_cong)
  then have "xs = rev (dropWhile (\<lambda>x. x = None) (rev xs)) @ rev (takeWhile (\<lambda>x. x = None) (rev xs))"
    by (simp only: rev_rev_ident rev_append)
  then show ?thesis unfolding sparse_array_def by blast
qed

lemma sparse_array_length: "length (sparse_array xs) \<le> length xs"
  unfolding sparse_array_def using length_dropWhile_le[of "\<lambda>x. x = None" "rev xs"] by simp

lemma sparse_array_get:
  assumes "array_get (sparse_array xs) i = Some v"
  shows "i < length xs \<and> xs ! i = Some v"
proof -
  obtain ys where ys: "xs = sparse_array xs @ ys" using sparse_array_prefix by blast
  have i: "i < length (sparse_array xs)" and e: "sparse_array xs ! i = Some v"
    using assms by (simp_all add: array_get_def split: if_splits)
  have "(sparse_array xs @ ys) ! i = sparse_array xs ! i" using i by (simp add: nth_append)
  then have "xs ! i = Some v" using ys e by simp
  moreover have "i < length xs" using i sparse_array_length[of xs] by simp
  ultimately show ?thesis by simp
qed

lemma start_loading_facts:
  "loadedCount (start_loading outcomes) = 0"
  "\<not> flag (start_loading outcomes)"
  "length (images (start_loading outcomes)) \<le> 8"
  "array_get (images (start_loading outcomes)) i = Some img \<Longrightarrow> \<not> complete img"
proof -
  define xs where "xs = map (map_option (\<lambda>url. \<lparr>src = url, complete = False\<rparr>))
               (map fst (map fetch_url (zip moonPhaseFiles outcomes)))"
  have im: "images (start_loading outcomes) = sparse_array xs"
    unfolding start_loading_def Let_def xs_def by (simp only: loader.select_convs)
  have "length xs \<le> 8" unfolding xs_def by (simp add: moonPhaseFiles_def)
  then show "length (images (start_loading outcomes)) \<le> 8"
    unfolding im using sparse_array_length[of xs] by simp
  show "loadedCount (start_loading outcomes) = 0"
    unfolding start_loading_def Let_def by (simp only: loader.select_convs)
  show "\<not> flag (start_loading outcomes)"
    unfolding start_loading_def Let_def by (simp only: loader.select_convs) simp
  assume "array_get (images (start_loading outcomes)) i = Some img"
  then have "i < length xs \<and> xs ! i = Some img" unfolding im by (rule sparse_array_get)
  then have "Some img \<in> set xs" using nth_mem[of i xs] by simp
  then obtain u where "Some img = map_option (\<lambda>url. \<lparr>src = url, complete = False\<rparr>) u"
    unfolding xs_def by (simp only: set_map) blast
  then show "\<not> complete img" by (cases u) simp_all
qed

lemma handle_event_Onload_Some:
  assumes "array_get (images st) i = Some img"
  shows "images (handle_event st (Onload i)) = (images st)[i := Some (img\<lparr>complete := True\<rparr>)]"
    and "loadedCount (handle_event st (Onload i)) = loadedCount st + 1"
    and "flag (handle_event st (Onload i)) = (flag st \<or> loadedCount st + 1 = 8)"
  using assms by (simp_all add: Let_def moonPhaseFiles_def)

lemma handle_event_Onload_None:
  assumes "array_get (images st) i = None"
  shows "handle_event st (Onload i) = st"
  using assms by simp

lemma handle_event_Onerror:
  "images (handle_event st (Onerror i)) = images st"
  "loadedCount (handle_event st (Onerror i)) = loadedCount st"
  "flag (handle_event st (Onerror i)) = flag st"
  by (simp_all split: option.splits)

lemma array_get_update:
  "array_get (xs[i := v]) j = (if j = i \<and> i < length xs then v else array_get xs j)"
  by (simp add: array_get_def)

lemma array_get_Some_less: "array_get xs i = Some v \<Longrightarrow> i < length xs"
  by (simp add: array_get_def split: if_splits)

lemma loader_invariant:
  assumes "distinct events"
  shows "length (images (load_moon_images outcomes events)) \<le> 8
    \<and> (\<forall>i. (array_get (images (load_moon_images outcomes events)) i = None)
           = (array_get (images (start_loading outcomes)) i = None))
    \<and> (\<forall>i img. array_get (images (load_moon_images outcomes events)) i = Some img \<longrightarrow>
           complete img = (Onload i \<in> set events))
    \<and> loadedCount (load_moon_images outcomes events)
        = card {i. Onload i \<in> set events \<and> array_get (images (start_loading outcomes)) i \<noteq> None}
    \<and> (flag (load_moon_images outcomes events) \<longrightarrow> 8 \<le> loadedCount (load_moon_images outcomes events))"
  using assms
proof (induction events rule: rev_induct)
  case Nil
  then show ?case
    using start_loading_facts[of outcomes]
    by (auto simp add: load_moon_images_def)
next
  case (snoc e es)
  let ?init = "start_loading outcomes"
  let ?st = "load_moon_images outcomes es"
  let ?st' = "load_moon_images outcomes (es @ [e])"
  have step: "?st' = handle_event ?st e" by (simp add: load_moon_images_def)
  have d: "distinct es" and new: "e \<notin> set es" using snoc.prems by simp_all
  note IH = snoc.IH[OF d]
  have fin: "finite {i. array_get (images ?init) i \<noteq> None}"
  proof (rule finite_subset)
    show "{i. array_get (images ?init) i \<noteq> None} \<subseteq> {..<length (images ?init)}"
      by (auto simp add: array_get_def split: if_splits)
  qed simp
  show ?case
  proof (cases e)
    case (Onerror i)
    have sets: "{j. Onload j \<in> set (es @ [e]) \<and> array_get (images ?init) j \<noteq> None}
        = {j. Onload j \<in> set es \<and> array_get (images ?init) j \<noteq> None}"
      using Onerror by auto
    have im: "images ?st' = images ?st" and lc: "loadedCount ?st' = loadedCount ?st"
      and fl: "flag ?st' = flag ?st"
      using step Onerror by (simp_all add: handle_event_Onerror del: handle_event.simps)
    have m: "\<And>j. (Onload j \<in> set (es @ [e])) = (Onload j \<in> set es)"
      using Onerror by auto
    have 4: "loadedCount ?st = card {j. Onload j \<in> set (es @ [e]) \<and> array_get (images ?init) j \<noteq> None}"
      using IH sets by simp
    have 3: "\<forall>j img'. array_get (images ?st) j = Some img' \<longrightarrow>
           complete img' = (Onload j \<in> set (es @ [e]))"
      using IH m by blast
    show ?thesis unfolding im lc fl using IH 3 4 by blast
  next
    case (Onload i)
    show ?thesis
    proof (cases "array_get (images ?st) i")
      case None
      then have n0: "array_get (images ?init) i = None" using IH by simp
      have sets: "{j. Onload j \<in> set (es @ [e]) \<and> array_get (images ?init) j \<noteq> None}
          = {j. Onload j \<in> set es \<and> array_get (images ?init) j \<noteq> None}"
        using Onload n0 by auto
      have same: "?st' = ?st" using step Onload None by simp
      have m: "\<And>j img'. array_get (images ?st) j = Some img' \<Longrightarrow>
          (Onload j \<in> set (es @ [e])) = (Onload j \<in> set es)"
        using None Onload by auto
      have 3: "\<forall>j img'. array_get (images ?st) j = Some img' \<longrightarrow>
           complete img' = (Onload j \<in> set (es @ [e]))"
        using IH m by blast
      have 4: "loadedCount ?st = card {j. Onload j \<in> set (es @ [e]) \<and> array_get (images ?init) j \<noteq> None}"
        using IH sets by simp
      show ?thesis unfolding same using IH 3 4 by blast
    next
      case (Some img)
      have il: "i < length (images ?st)" using Some by (rule array_get_Some_less)
      have s0: "array_get (images ?init) i \<noteq> None" using IH Some by (metis option.distinct(1))
      have im: "images ?st' = (images ?st)[i := Some (img\<lparr>complete := True\<rparr>)]"
        and lc: "loadedCount ?st' = loadedCount ?st + 1"
        and fl: "flag ?st' = (flag ?st \<or> loadedCount ?st + 1 = 8)"
        using step Onload handle_event_Onload_Some[OF Some] by simp_all
      have notin: "Onload i \<notin> set es" using new Onload by simp
      have sets: "{j. Onload j \<in> set (es @ [e]) \<and> array_get (images ?init) j \<noteq> None}
          = insert i {j. Onload j \<in> set es \<and> array_get (images ?init) j \<noteq> None}"
        using Onload s0 by auto
      have fin': "finite {j. Onload j \<in> set es \<and> array_get (images ?init) j \<noteq> None}"
        by (rule finite_subset[OF _ fin]) auto
      have c: "card {j. Onload j \<in> set (es @ [e]) \<and> array_get (images ?init) j \<noteq> None}
          = loadedCount ?st + 1"
        unfolding sets using fin' notin IH by simp
      have 1: "length (images ?st') \<le> 8" using IH im by simp
      have 2: "\<forall>j. (array_get (images ?st') j = None) = (array_get (images ?init) j = None)"
        using IH s0 il unfolding im by (auto simp add: array_get_update)
      have 3: "\<forall>j img'. array_get (images ?st') j = Some img' \<longrightarrow>
           complete img' = (Onload j \<in> set (es @ [e]))"
        using IH il Onload unfolding im by (auto simp add: array_get_update)
      have 4: "loadedCount ?st' = card {j. Onload j \<in> set (es @ [e]) \<and> array_get (images ?init) j \<noteq> None}"
        using c lc by simp
      have 5: "flag ?st' \<longrightarrow> 8 \<le> loadedCount ?st'"
        using IH fl lc by auto
      show ?thesis using 1 2 3 4 5 by blast
    qed
  qed
qed


lemma flag_implies_all_loaded:
  assumes "distinct events" and "flag (load_moon_images outcomes events)" and "i < 8"
  shows "\<exists>img. array_get (images (load_moon_images outcomes events)) i = Some img \<and> complete img"
proof -
  let ?init = "start_loading outcomes"
  let ?fin = "load_moon_images outcomes events"
  let ?S = "{i. Onload i \<in> set events \<and> array_get (images ?init) i \<noteq> None}"
  note inv = loader_invariant[OF assms(1), of outcomes]
  have len: "length (images ?init) \<le> 8" using start_loading_facts(3) .
  have sub: "?S \<subseteq> {..<8}"
    using len by (auto simp add: array_get_def split: if_splits)
  have "8 \<le> card ?S" using inv assms(2) by simp
  then have "card {..<8::nat} \<le> card ?S" by simp
  then have "?S = {..<8}" using sub by (intro card_seteq) simp_all
  then have "i \<in> ?S" using assms(3) by simp
  then have ev: "Onload i \<in> set events" and "array_get (images ?init) i \<noteq> None" by simp_all
  then have "array_get (images ?fin) i \<noteq> None" using inv by simp
  then obtain img where img: "array_get (images ?fin) i = Some img" by auto
  then have "complete img" using inv ev by blast
  then show ?thesis using img by blast
qed


text \<open>
  A failed fetch leaves a hole at its index, and then the flag is never set, whatever
  events follow.
\<close>

lemma start_loading_failed:
  assumes "i < length outcomes" and "outcomes ! i = Failed"
  shows "array_get (images (start_loading outcomes)) i = None"
proof (cases "array_get (images (start_loading outcomes)) i")
  case None
  then show ?thesis .
next
  case (Some img)
  define xs where "xs = map (map_option (\<lambda>url. \<lparr>src = url, complete = False\<rparr>))
               (map fst (map fetch_url (zip moonPhaseFiles outcomes)))"
  have im: "images (start_loading outcomes) = sparse_array xs"
    unfolding start_loading_def Let_def xs_def by (simp only: loader.select_convs)
  have g: "i < length xs \<and> xs ! i = Some img"
    using Some unfolding im by (rule sparse_array_get)
  then have l: "i < length (zip moonPhaseFiles outcomes)" unfolding xs_def by simp
  then have "xs ! i = map_option (\<lambda>url. \<lparr>src = url, complete = False\<rparr>)
      (fst (fetch_url (moonPhaseFiles ! i, outcomes ! i)))"
    unfolding xs_def by (simp only: nth_map length_map nth_zip) (simp add: nth_zip)
  then have "xs ! i = None" using assms(2) by simp
  then show ?thesis using g by simp
qed

lemma failed_fetch_never_ready:
  assumes "distinct events" and "i < 8" and "i < length outcomes" and "outcomes ! i = Failed"
  shows "\<not> flag (load_moon_images outcomes events)"
proof
  assume "flag (load_moon_images outcomes events)"
  then obtain img where "array_get (images (load_moon_images outcomes events)) i = Some img"
    using flag_implies_all_loaded[OF assms(1) _ assms(2)] by blast
  then have a: "array_get (images (load_moon_images outcomes events)) i \<noteq> None" by simp
  have "(array_get (images (load_moon_images outcomes events)) i = None)
      = (array_get (images (start_loading outcomes)) i = None)"
    using loader_invariant[OF assms(1), of outcomes] by blast
  then have "array_get (images (start_loading outcomes)) i \<noteq> None"
    using a by blast
  then show False using start_loading_failed[OF assms(3,4)] by simp
qed

section \<open>The moon subdial\<close>

lemma drawMoon_not_ready:
  assumes "\<not> (moonImagesLoaded as \<and> length (moonPhaseImages as) > 0)"
  shows "drawMoon as d =
     [Save, BeginPath, Arc canvas_c (canvas_c + canvas_r * 0.56) (canvas_r * 0.18) 0 (pi * 2), Clip,
      FillStyle (Flat (Css ''#1e3a8a'')), Fill,
      Restore,
      BeginPath, Arc canvas_c (canvas_c + canvas_r * 0.56) (canvas_r * 0.18) 0 (pi * 2),
      StrokeStyle (Flat (Css ''#c0c0c0'')), LineWidth 2.5, Stroke,
      BeginPath, Arc canvas_c (canvas_c + canvas_r * 0.56) (canvas_r * 0.18 - 1.5) 0 (pi * 2),
      StrokeStyle (Flat (Css ''#0b1d3a'')), LineWidth 1, Stroke]"
  using assms by (auto simp add: drawMoon_def Let_def)




text \<open>
  The fill is the other branch of the test on the flag and the length of the array. With
  the flag set, the array not empty and the selected handle missing or not complete the
  routine would paint neither the image nor the fill; by \<open>frame_not_ready\<close> no frame
  is in that state.
\<close>

lemma drawMoon_flag_without_handle:
  assumes "moonImagesLoaded as" and "moonPhaseImages as \<noteq> []"
    and "\<forall>img. array_get (moonPhaseImages as) (getMoonPhaseImage (moonAge d)) = Some img
           \<longrightarrow> \<not> complete img"
  shows "Fill \<notin> set (drawMoon as d) \<and> drawn_images (drawMoon as d) = []"
proof (cases "array_get (moonPhaseImages as) (getMoonPhaseImage (moonAge d))")
  case None
  then show ?thesis using assms(1,2)
    by (simp add: drawMoon_def Let_def drawn_images_def)
next
  case (Some img)
  then have "\<not> complete img" using assms(3) by blast
  then show ?thesis using assms(1,2) Some
    by (simp add: drawMoon_def Let_def drawn_images_def)
qed



lemma getMoonPhaseImage_epoch: "getMoonPhaseImage (moonAge epoch_date) = 0"
  unfolding moonAge_epoch getMoonPhaseImage_def threshold_values by simp


section \<open>A failed fetch\<close>

text \<open>
  Claim C4 at a failing input. The fetch of \<open>Waxing_Gibbous.svg\<close> fails and the seven
  other images load. The failure is caught and logged, but \<open>loadedCount\<close> stops at 7 and
  is compared with the number of files, 8, so the flag is never set: at the new moon the
  handle at index 0 is present and complete, and \<open>drawMoon\<close> still draws the flat fill and
  no image.
\<close>

theorem one_failed_fetch_blocks_every_image:
  "flag (load_moon_images one_failed (map Onload [0, 1, 2, 4, 5, 6, 7])) = False
   \<and> console (load_moon_images one_failed []) = [Error_loading ''Waxing_Gibbous.svg'']
   \<and> array_get (moonPhaseImages loaded_seven) (getMoonPhaseImage (moonAge epoch_date))
       = Some \<lparr>src = ''blob:New_Moon.svg'', complete = True\<rparr>
   \<and> drawn_images (drawMoon loaded_seven epoch_date) = []
   \<and> Fill \<in> set (drawMoon loaded_seven epoch_date)"
proof -
  have f: "flag (load_moon_images one_failed (map Onload [0, 1, 2, 4, 5, 6, 7])) = False"
    using loaded_seven_eval by (simp add: loaded_seven_def frame_assets_def)
  have l: "console (load_moon_images one_failed []) = [Error_loading ''Waxing_Gibbous.svg'']"
    by (simp add: one_failed_def load_moon_images_def start_loading_def
        all_fetched_def moonPhaseFiles_def Let_def)
  have h: "array_get (moonPhaseImages loaded_seven) (getMoonPhaseImage (moonAge epoch_date))
       = Some \<lparr>src = ''blob:New_Moon.svg'', complete = True\<rparr>"
    unfolding getMoonPhaseImage_epoch
    by (simp add: loaded_seven_eval array_get_def moonPhaseFiles_def)
  have n: "\<not> (moonImagesLoaded loaded_seven \<and> length (moonPhaseImages loaded_seven) > 0)"
    by (simp add: loaded_seven_eval)
  have d: "drawn_images (drawMoon loaded_seven epoch_date) = []"
    unfolding drawMoon_not_ready[OF n] by (simp add: drawn_images_def)
  have p: "Fill \<in> set (drawMoon loaded_seven epoch_date)"
    unfolding drawMoon_not_ready[OF n] by simp
  show ?thesis using f l h d p by (intro conjI)
qed

section \<open>Rotations of the hands\<close>

lemma rotations_Cons: "rotations (x # xs) = rotation_of x @ rotations xs"
  by (simp add: rotations_def)

lemma rotations_append: "rotations (xs @ ys) = rotations xs @ rotations ys"
  by (simp add: rotations_def)

lemma rotations_Nil: "rotations [] = []"
  by (simp add: rotations_def)

lemma drawGMTHand_rotations: "rotations (drawGMTHand angle) = [angle - pi / 2]"
  by (simp add: drawGMTHand_def Let_def rotations_Cons rotations_Nil)

lemma drawBreguetHand_rotations: "rotations (drawBreguetHand now angle len col) = [angle - pi / 2]"
  by (simp add: drawBreguetHand_def Let_def rotations_Cons rotations_append rotations_Nil)

lemma drawSecondsHand_rotations: "rotations (drawSecondsHand now angle) = [angle - pi / 2]"
  by (simp add: drawSecondsHand_def Let_def rotations_Cons rotations_append rotations_Nil)

lemma drawSidereal_rotations: "rotations (drawSidereal date breathe) = [getSiderealAngle date + pi / 6]"
  by (simp add: drawSidereal_def Let_def rotations_Cons rotations_Nil)

text \<open>
  Claim C2, as the source has it. The hour and minute hands (\<open>drawBreguetHand\<close>), the
  seconds hand and the GMT hand each save the context, move to the centre and rotate by
  their input angle minus \<open>pi / 2\<close>, and make no other rotation, before the hand is drawn
  along the positive axis. The sidereal hand is rotated by the sidereal angle plus
  \<open>pi / 6\<close>, and by nothing else.
\<close>

theorem hands_rotate_by_angle_minus_quarter_turn:
  "take 3 (drawBreguetHand now angle len col) = [Save, Translate canvas_c canvas_c, Rotate (angle - pi / 2)]
   \<and> rotations (drawBreguetHand now angle len col) = [angle - pi / 2]
   \<and> take 3 (drawSecondsHand now angle) = [Save, Translate canvas_c canvas_c, Rotate (angle - pi / 2)]
   \<and> rotations (drawSecondsHand now angle) = [angle - pi / 2]
   \<and> take 3 (drawGMTHand angle) = [Save, Translate canvas_c canvas_c, Rotate (angle - pi / 2)]
   \<and> rotations (drawGMTHand angle) = [angle - pi / 2]
   \<and> rotations (drawSidereal date breathe) = [getSiderealAngle date + pi / 6]"
proof -
  have a: "take 3 (drawBreguetHand now angle len col) = [Save, Translate canvas_c canvas_c, Rotate (angle - pi / 2)]"
    by (simp add: drawBreguetHand_def Let_def)
  have b: "take 3 (drawSecondsHand now angle) = [Save, Translate canvas_c canvas_c, Rotate (angle - pi / 2)]"
    by (simp add: drawSecondsHand_def Let_def)
  have c: "take 3 (drawGMTHand angle) = [Save, Translate canvas_c canvas_c, Rotate (angle - pi / 2)]"
    by (simp add: drawGMTHand_def Let_def)
  show ?thesis
    using a b c drawBreguetHand_rotations drawSecondsHand_rotations drawGMTHand_rotations
      drawSidereal_rotations by simp
qed

text \<open>
  The claim as stated has the sidereal hand rotated by its angle minus \<open>pi / 2\<close>, plus
  the correction. At the reference instant that is not the rotation the routine makes.
\<close>

theorem sidereal_hand_counterexample:
  "rotations (drawSidereal epoch_date 0) \<noteq> [getSiderealAngle epoch_date - pi / 2 + pi / 6]"
  by (simp add: drawSidereal_rotations)

section \<open>One frame\<close>

text \<open>The line cap through a list of calls.\<close>

lemma lineCap_run_Nil: "lineCap_run st [] = st"
  by (simp add: lineCap_run_def)

lemma lineCap_run_Cons: "lineCap_run st (x # xs) = lineCap_run (lineCap_step st x) xs"
  by (simp add: lineCap_run_def)

lemma lineCap_run_append: "lineCap_run st (xs @ ys) = lineCap_run (lineCap_run st xs) ys"
  by (simp add: lineCap_run_def)

lemma lineCap_run_concat:
  assumes "\<And>x st. x \<in> set xs \<Longrightarrow> lineCap_run st (f x) = st"
  shows "lineCap_run st (concat (map f xs)) = st"
  using assms
proof (induction xs arbitrary: st)
  case Nil
  then show ?case by (simp add: lineCap_run_Nil)
next
  case (Cons x xs)
  have "lineCap_run st (f x) = st" using Cons.prems by simp
  moreover have "lineCap_run st (concat (map f xs)) = st"
    using Cons.prems by (intro Cons.IH) simp
  ultimately show ?case by (simp add: lineCap_run_append)
qed

lemma stroke_caps_append:
  "stroke_caps st (xs @ ys) = stroke_caps st xs @ stroke_caps (lineCap_run st xs) ys"
proof (induction xs arbitrary: st)
  case Nil
  then show ?case by (simp add: lineCap_run_Nil)
next
  case (Cons x xs)
  then show ?case by (cases x) (simp_all add: lineCap_run_Cons)
qed

lemma stroke_caps_concat:
  assumes "\<And>x. x \<in> set xs \<Longrightarrow> stroke_caps st (f x) = [fst st]"
    and "\<And>x. x \<in> set xs \<Longrightarrow> lineCap_run st (f x) = st"
  shows "stroke_caps st (concat (map f xs)) = replicate (length xs) (fst st)
         \<and> lineCap_run st (concat (map f xs)) = st"
  using assms
proof (induction xs)
  case Nil
  then show ?case by (simp add: lineCap_run_Nil)
next
  case (Cons x xs)
  have a: "stroke_caps st (f x) = [fst st]" and b: "lineCap_run st (f x) = st"
    using Cons.prems by simp_all
  have c: "stroke_caps st (concat (map f xs)) = replicate (length xs) (fst st)
         \<and> lineCap_run st (concat (map f xs)) = st"
    using Cons.prems by (intro Cons.IH) simp_all
  show ?case using a b c by (simp add: stroke_caps_append lineCap_run_append)
qed

text \<open>
  The ticks of the minute track set no cap: each is stroked with the cap the context
  has, and leaves it.
\<close>

lemma drawMinuteTrack_caps:
  "stroke_caps st drawMinuteTrack = replicate 60 (fst st)"
  "lineCap_run st drawMinuteTrack = st"
proof -
  have "stroke_caps st drawMinuteTrack = replicate (length [0..<60::nat]) (fst st)
      \<and> lineCap_run st drawMinuteTrack = st"
    unfolding drawMinuteTrack_def
    by (rule stroke_caps_concat) (simp_all add: Let_def lineCap_run_Cons lineCap_run_Nil)
  then show "stroke_caps st drawMinuteTrack = replicate 60 (fst st)"
    and "lineCap_run st drawMinuteTrack = st" by simp_all
qed

text \<open>
  Each baton sets the cap \<open>square\<close> before its stroke, outside any \<open>save\<close>, and nothing
  sets it back.
\<close>

lemma drawBaton_cap: "lineCap_run st (drawBaton time i) = (''square'', snd st)"
  by (cases st) (simp add: drawBaton_def Let_def lineCap_run_Cons lineCap_run_Nil)

lemma drawBaton_strokes: "stroke_caps st (drawBaton time i) = [''square'']"
  by (cases st) (simp add: drawBaton_def Let_def)

lemma drawBatons_from:
  "lineCap_run st (concat (map (drawBaton time) [m..<m + Suc n])) = (''square'', snd st)"
proof (induction n)
  case 0
  then show ?case by (simp add: drawBaton_cap)
next
  case (Suc n)
  have "[m..<m + Suc (Suc n)] = [m..<m + Suc n] @ [m + Suc n]" by simp
  then have "concat (map (drawBaton time) [m..<m + Suc (Suc n)])
      = concat (map (drawBaton time) [m..<m + Suc n]) @ drawBaton time (m + Suc n)"
    by (simp only: map_append concat_append) simp
  then show ?case using Suc by (simp only: lineCap_run_append drawBaton_cap snd_conv)
qed

lemma drawBatons_cap: "lineCap_run st (drawBatons now) = (''square'', snd st)"
  using drawBatons_from[of st "real_of_int now / 1000" 0 11]
  by (simp add: drawBatons_def Let_def)

text \<open>Every other routine leaves the cap as it found it.\<close>

lemma arcLetters_cap: "lineCap_run st (arcLetters word start step radius) = st"
  unfolding arcLetters_def
  by (rule lineCap_run_concat) (auto simp add: Let_def lineCap_run_Cons lineCap_run_Nil)

lemma drawSwissMade_cap: "lineCap_run st drawSwissMade = st"
  by (cases st)
    (simp add: drawSwissMade_def Let_def lineCap_run_Cons lineCap_run_Nil lineCap_run_append
      arcLetters_cap)

lemma drawMoon_cap: "lineCap_run st (drawMoon as d) = st"
  by (cases st)
    (simp add: drawMoon_def Let_def lineCap_run_Cons lineCap_run_Nil lineCap_run_append
      split: option.splits)

lemma drawSidereal_cap: "lineCap_run st (drawSidereal d breathe) = st"
  by (cases st) (simp add: drawSidereal_def Let_def lineCap_run_Cons lineCap_run_Nil)

lemma drawDate_cap: "lineCap_run st (drawDate d) = st"
  by (cases st) (simp add: drawDate_def Let_def lineCap_run_Cons lineCap_run_Nil)

lemma drawGMTHand_cap: "lineCap_run st (drawGMTHand angle) = st"
  by (cases st) (simp add: drawGMTHand_def Let_def lineCap_run_Cons lineCap_run_Nil)

lemma drawBreguetHand_cap: "lineCap_run st (drawBreguetHand now angle len col) = st"
  by (cases st)
    (simp add: drawBreguetHand_def Let_def lineCap_run_Cons lineCap_run_Nil lineCap_run_append)

lemma drawSecondsHand_cap: "lineCap_run st (drawSecondsHand now angle) = st"
  by (cases st)
    (simp add: drawSecondsHand_def Let_def lineCap_run_Cons lineCap_run_Nil lineCap_run_append)

lemma drawCase_cap: "lineCap_run st (drawCase as) = st"
  by (simp add: drawCase_def lineCap_run_Cons lineCap_run_Nil)

lemma drawCrystal_cap: "lineCap_run st (drawCrystal now breathe) = st"
  by (cases st) (simp add: drawCrystal_def Let_def lineCap_run_Cons lineCap_run_Nil)

text \<open>A frame leaves the cap \<open>square\<close>, whatever cap it began with.\<close>

lemma drawWatch_cap: "lineCap_run (cap, []) (drawWatch clk k as) = (''square'', [])"
  unfolding drawWatch_def Let_def
  apply (simp only: lineCap_run_append lineCap_run_Cons lineCap_run_Nil lineCap_step.simps
      drawMinuteTrack_caps drawBatons_cap arcLetters_cap drawSwissMade_cap drawMoon_cap
      drawSidereal_cap drawDate_cap drawGMTHand_cap drawBreguetHand_cap drawSecondsHand_cap
      drawCase_cap drawCrystal_cap snd_conv)
  apply (rule lineCap_run_concat)
  apply (auto simp add: lineCap_run_Cons lineCap_run_Nil)
  done

text \<open>
  The first strokes of a frame are the ring of the dial and the sixty ticks of the minute
  track, before any baton: they are drawn with the cap the frame began with.
\<close>

lemma drawWatch_first_strokes:
  "take 61 (stroke_caps (cap, []) (drawWatch clk k as)) = replicate 61 cap"
proof -
  obtain rest where r: "drawWatch clk k as =
      [ClearRect 0 0 canvas_size canvas_size,
       BeginPath,
       Arc canvas_c canvas_c canvas_r 0 (pi * 2),
       FillStyle (RadialGradient canvas_c canvas_c 0 canvas_c canvas_c canvas_r
            [(0, Css ''#1a2a4a''), (0.7, Css ''#0f1a35''), (1, Css ''#0a0f20'')]),
       Fill,
       StrokeStyle (Flat (Css ''#0a0f20'')),
       LineWidth 4,
       Stroke] @ drawMinuteTrack @ rest"
    unfolding drawWatch_def Let_def by blast
  have "stroke_caps (cap, []) (drawWatch clk k as)
      = cap # replicate 60 cap @ stroke_caps (cap, []) rest"
    unfolding r
    by (simp add: stroke_caps_append drawMinuteTrack_caps lineCap_run_Cons lineCap_run_Nil)
  then show ?thesis by (simp add: numeral_eq_Suc)
qed

text \<open>
  Claim C9 at a failing input. The page sizes the canvas when the drawing effect is
  created, which leaves the context with the cap \<open>butt\<close>, and then draws frame after frame
  on that context. Two frames of one clock, one GMT offset and the same assets make the
  same calls, but \<open>drawBatons\<close> leaves the cap \<open>square\<close>: the first frame strokes the ring
  of the dial and the sixty ticks of the minute track with \<open>butt\<close>, the frame after it
  strokes them with \<open>square\<close>.
\<close>

theorem frames_differ_in_line_cap:
  "animate True clk k as = drawWatch clk k as
   \<and> take 61 (stroke_caps fresh_context (animate True clk k as)) = replicate 61 ''butt''
   \<and> lineCap_run fresh_context (animate True clk k as) = (''square'', [])
   \<and> take 61 (stroke_caps (lineCap_run fresh_context (animate True clk k as))
                (animate True clk k as)) = replicate 61 ''square''"
proof -
  have a: "animate True clk k as = drawWatch clk k as" by (simp add: animate_def)
  have b: "take 61 (stroke_caps fresh_context (drawWatch clk k as)) = replicate 61 ''butt''"
    unfolding fresh_context_def by (rule drawWatch_first_strokes)
  have c: "lineCap_run fresh_context (drawWatch clk k as) = (''square'', [])"
    unfolding fresh_context_def by (rule drawWatch_cap)
  have d: "take 61 (stroke_caps (lineCap_run fresh_context (drawWatch clk k as))
                (drawWatch clk k as)) = replicate 61 ''square''"
    unfolding c by (rule drawWatch_first_strokes)
  show ?thesis unfolding a using b c d by simp
qed

section \<open>Opacities\<close>

lemma alphas_Nil: "alphas [] = []"
  by (simp add: alphas_def)

lemma alphas_Cons: "alphas (x # xs) = cmd_alphas x @ alphas xs"
  by (simp add: alphas_def)

lemma alphas_append: "alphas (xs @ ys) = alphas xs @ alphas ys"
  by (simp add: alphas_def)

lemma alphas_concat_map:
  assumes "\<And>x. x \<in> set xs \<Longrightarrow> list_all P (alphas (f x))"
  shows "list_all P (alphas (concat (map f xs)))"
  using assms by (induction xs) (simp_all add: alphas_Nil alphas_append)

lemma list_all_weaken:
  assumes "list_all P xs" "\<And>x. P x \<Longrightarrow> Q x"
  shows "list_all Q xs"
  using assms by (simp add: list_all_iff)

lemma sine_scalar_range: "0 \<le> sin x * 0.5 + 0.5 \<and> sin x * 0.5 + 0.5 \<le> (1::real)"
proof -
  have "- 1 \<le> sin x" "sin x \<le> 1" by simp_all
  then show ?thesis by (simp; linarith)
qed

lemma breathe_of_range: "0 \<le> breathe_of now \<and> breathe_of now \<le> 1"
  unfolding breathe_of_def by (rule sine_scalar_range)

lemma arTint_of_range: "0 \<le> arTint_of now \<and> arTint_of now \<le> 1"
  unfolding arTint_of_def by (rule sine_scalar_range)

lemma baton_sparkle_range: "0 \<le> baton_sparkle time i \<and> baton_sparkle time i \<le> 1"
  unfolding baton_sparkle_def by (rule sine_scalar_range)

lemma seconds_sparkle_range: "0 \<le> seconds_sparkle time angle \<and> seconds_sparkle time angle \<le> 1"
  unfolding seconds_sparkle_def by (rule sine_scalar_range)

lemma hand_sparkle1_range: "0 \<le> hand_sparkle1 time angle \<and> hand_sparkle1 time angle \<le> 1"
  unfolding hand_sparkle1_def using sine_scalar_range[of "time * 0.4 + angle * 3.7"] by simp

lemma hand_sparkle2_range: "0 \<le> hand_sparkle2 time angle \<and> hand_sparkle2 time angle \<le> 1"
  unfolding hand_sparkle2_def using sine_scalar_range[of "time * 0.3 + angle * 5.1 + 2.5"] by simp

lemma drawBaton_alphas: "list_all (\<lambda>a. 0 \<le> a \<and> a \<le> 0.96) (alphas (drawBaton time i))"
  using baton_sparkle_range[of time i]
  by (simp add: drawBaton_def Let_def alphas_Cons alphas_append alphas_Nil)

lemma drawBatons_alphas: "list_all (\<lambda>a. 0 \<le> a \<and> a \<le> 0.96) (alphas (drawBatons now))"
  unfolding drawBatons_def Let_def by (rule alphas_concat_map) (rule drawBaton_alphas)

lemma drawBreguetHand_alphas:
  "list_all (\<lambda>a. 0 \<le> a \<and> a \<le> 0.9) (alphas (drawBreguetHand now angle len col))"
  using hand_sparkle1_range[of "of_int now / 1000" angle] hand_sparkle2_range[of "of_int now / 1000" angle]
  by (simp add: drawBreguetHand_def Let_def alphas_Cons alphas_append alphas_Nil)

lemma drawSecondsHand_alphas:
  "list_all (\<lambda>a. 0 \<le> a \<and> a \<le> 0.96) (alphas (drawSecondsHand now angle))"
  using seconds_sparkle_range[of "of_int now / 1000" angle]
  by (simp add: drawSecondsHand_def Let_def alphas_Cons alphas_append alphas_Nil)

lemma drawCrystal_alphas:
  assumes "0 \<le> breathe" "breathe \<le> 1"
  shows "list_all (\<lambda>a. 0 \<le> a \<and> a \<le> 0.15) (alphas (drawCrystal now breathe))"
  using assms arTint_of_range[of now]
  by (simp add: drawCrystal_def Let_def alphas_Cons alphas_Nil)

lemma drawMinuteTrack_alphas: "alphas drawMinuteTrack = []"
proof -
  have "list_all (\<lambda>a. False) (alphas drawMinuteTrack)"
    unfolding drawMinuteTrack_def
    by (rule alphas_concat_map) (simp add: Let_def alphas_Cons alphas_Nil)
  then show ?thesis by (cases "alphas drawMinuteTrack") simp_all
qed

lemma arcLetters_alphas: "alphas (arcLetters word start step radius) = []"
proof -
  have "list_all (\<lambda>a. False) (alphas (arcLetters word start step radius))"
    unfolding arcLetters_def
    by (rule alphas_concat_map) (auto simp add: Let_def alphas_Cons alphas_Nil)
  then show ?thesis by (cases "alphas (arcLetters word start step radius)") simp_all
qed

lemma drawSwissMade_alphas: "alphas drawSwissMade = []"
  by (simp add: drawSwissMade_def Let_def alphas_Cons alphas_append alphas_Nil arcLetters_alphas)

lemma drawGMTHand_alphas: "alphas (drawGMTHand angle) = []"
  by (simp add: drawGMTHand_def Let_def alphas_Cons alphas_Nil)

lemma drawMoon_alphas: "alphas (drawMoon as date) = []"
  by (simp add: drawMoon_def Let_def alphas_Cons alphas_append alphas_Nil split: option.splits)

lemma drawSidereal_alphas: "alphas (drawSidereal date breathe) = []"
  by (simp add: drawSidereal_def Let_def alphas_Cons alphas_Nil)

lemma drawDate_alphas: "alphas (drawDate date) = [0.5, 0, 0.4, 0]"
  by (simp add: drawDate_def Let_def alphas_Cons alphas_Nil)

lemma drawCase_alphas: "alphas (drawCase as) = []"
  by (simp add: drawCase_def alphas_Cons alphas_Nil)

lemma drawWatch_alphas: "list_all (\<lambda>a. 0 \<le> a \<and> a \<le> 1) (alphas (drawWatch clk gmtOffset as))"
proof -
  let ?P = "\<lambda>a::real. 0 \<le> a \<and> a \<le> 1"
  have b: "?P (breathe_of (getTime (clk 0)))" using breathe_of_range by simp
  have 1: "\<And>now. list_all ?P (alphas (drawBatons now))"
    by (rule list_all_weaken[OF drawBatons_alphas]) simp
  have 2: "\<And>now angle len col. list_all ?P (alphas (drawBreguetHand now angle len col))"
    by (rule list_all_weaken[OF drawBreguetHand_alphas]) simp
  have 3: "\<And>now angle. list_all ?P (alphas (drawSecondsHand now angle))"
    by (rule list_all_weaken[OF drawSecondsHand_alphas]) simp
  have 4: "\<And>now. list_all ?P (alphas (drawCrystal now (breathe_of (getTime (clk 0)))))"
    by (rule list_all_weaken[OF drawCrystal_alphas]) (use b in simp_all)
  show ?thesis
    unfolding drawWatch_def Let_def
    by (simp add: alphas_Cons alphas_append alphas_Nil drawMinuteTrack_alphas smallNumerals_def
        drawSwissMade_alphas drawMoon_alphas drawSidereal_alphas drawDate_alphas drawGMTHand_alphas
        drawCase_alphas 1 2 3 4)
qed

text \<open>
  Claim C10. The breathing, tint and sparkle scalars lie in \<open>[0, 1]\<close>. The alphas of the
  batons and of the seconds hand are at most \<open>(1 - 0.88) * 8 = 0.96\<close>, those of the hand
  shafts at most \<open>(1 - 0.85) * 6 = 0.9\<close>, those of the crystal at most 0.15, and every
  alpha of an \<open>rgba\<close> style in a frame lies in \<open>[0, 1]\<close>.
\<close>

theorem modulation_bounded:
  "0 \<le> breathe_of now \<and> breathe_of now \<le> 1
   \<and> 0 \<le> arTint_of now \<and> arTint_of now \<le> 1
   \<and> 0 \<le> baton_sparkle time i \<and> baton_sparkle time i \<le> 1
   \<and> 0 \<le> hand_sparkle1 time angle \<and> hand_sparkle1 time angle \<le> 1
   \<and> 0 \<le> hand_sparkle2 time angle \<and> hand_sparkle2 time angle \<le> 1
   \<and> 0 \<le> seconds_sparkle time angle \<and> seconds_sparkle time angle \<le> 1
   \<and> (1 - 0.88) * 8 = (0.96 :: real) \<and> (1 - 0.85) * 6 = (0.9 :: real)
   \<and> list_all (\<lambda>a. 0 \<le> a \<and> a \<le> 0.96) (alphas (drawBatons now))
   \<and> list_all (\<lambda>a. 0 \<le> a \<and> a \<le> 0.96) (alphas (drawSecondsHand now angle))
   \<and> list_all (\<lambda>a. 0 \<le> a \<and> a \<le> 0.9) (alphas (drawBreguetHand now angle len col))
   \<and> list_all (\<lambda>a. 0 \<le> a \<and> a \<le> 0.15) (alphas (drawCrystal now (breathe_of now')))
   \<and> list_all (\<lambda>a. 0 \<le> a \<and> a \<le> 1) (alphas (drawWatch clk gmtOffset as))"
proof -
  have c: "list_all (\<lambda>a. 0 \<le> a \<and> a \<le> 0.15) (alphas (drawCrystal now (breathe_of now')))"
    using breathe_of_range[of now'] by (intro drawCrystal_alphas) simp_all
  have n: "(1 - 0.88) * 8 = (0.96 :: real)" "(1 - 0.85) * 6 = (0.9 :: real)" by simp_all
  show ?thesis
    using breathe_of_range[of now] arTint_of_range[of now] baton_sparkle_range[of time i]
      hand_sparkle1_range[of time angle] hand_sparkle2_range[of time angle]
      seconds_sparkle_range[of time angle] n
      drawBatons_alphas[of now] drawSecondsHand_alphas[of now angle]
      drawBreguetHand_alphas[of now angle len col] c drawWatch_alphas[of clk gmtOffset as]
    by blast
qed

theorem modulation_bounded_witness:
  "alphas (drawCrystal 0 (breathe_of 0))
     = [0, 0, 0.04, 0.08, 0, 0.09, 0.135, 0.09, 0, 0.02, 0.014, 0, 0.03, 0.01, 0]
   \<and> list_all (\<lambda>a. 0 \<le> a \<and> a \<le> 0.15) (alphas (drawCrystal 0 (breathe_of 0)))
   \<and> list_all (\<lambda>a. 0 \<le> a \<and> a \<le> 1) (alphas (drawWatch (\<lambda>k. epoch_date) 0 loaded_all))"
proof -
  have a: "alphas (drawCrystal 0 (breathe_of 0))
     = [0, 0, 0.04, 0.08, 0, 0.09, 0.135, 0.09, 0, 0.02, 0.014, 0, 0.03, 0.01, 0]"
    by (simp add: drawCrystal_def Let_def alphas_Cons alphas_Nil breathe_of_def arTint_of_def)
  show ?thesis
    using modulation_bounded[where now = 0 and now' = 0 and clk = "\<lambda>k. epoch_date"
        and gmtOffset = 0 and as = loaded_all] a
    by simp
qed

end
